theory Spec2Isabelle
  imports Complex_Main "HOL-Library.AList" "HOL-Library.Log_Nat"
begin

section \<open>JavaScript numbers\<close>

text \<open>
  A JavaScript \<open>number\<close> is an IEEE-754 binary64 value: \<open>NaN\<close>, one of the two
  infinities, or a finite value.  Every finite binary64 value is a rational, so the finite
  values are carried by \<open>rat\<close>; the two signed zeros are identified (no function below
  tells them apart).  \<open>Math.max\<close> and \<open>Math.min\<close> return \<open>NaN\<close> as soon as one
  argument is \<open>NaN\<close>, and the comparison operators are false on \<open>NaN\<close>.
\<close>

datatype number = NaN | NegInf | Fin rat | PosInf

fun js_le :: "number \<Rightarrow> number \<Rightarrow> bool" where
  "js_le NaN _ = False"
| "js_le _ NaN = False"
| "js_le NegInf _ = True"
| "js_le _ PosInf = True"
| "js_le (Fin a) (Fin b) = (a \<le> b)"
| "js_le (Fin a) NegInf = False"
| "js_le PosInf (Fin b) = False"
| "js_le PosInf NegInf = False"

fun Math_max :: "number \<Rightarrow> number \<Rightarrow> number" where
  "Math_max NaN _ = NaN"
| "Math_max _ NaN = NaN"
| "Math_max a b = (if js_le a b then b else a)"

fun Math_min :: "number \<Rightarrow> number \<Rightarrow> number" where
  "Math_min NaN _ = NaN"
| "Math_min _ NaN = NaN"
| "Math_min a b = (if js_le a b then a else b)"

subsection \<open>Rounding to binary64\<close>

text \<open>
  The result of an arithmetic operation on finite values is the exact result rounded to the
  nearest binary64 value, ties to the even significand.  \<open>ilog2 x\<close> is
  \<open>\<lfloor>log\<^sub>2 x\<rfloor>\<close> for positive \<open>x\<close>; \<open>ulp x\<close> is the spacing of the binary64
  values around \<open>x\<close>: \<open>2\<^sup>e\<^sup>-\<^sup>5\<^sup>2\<close> in the binade \<open>[2\<^sup>e, 2\<^sup>e\<^sup>+\<^sup>1)\<close>, and
  \<open>2\<^sup>-\<^sup>1\<^sup>0\<^sup>7\<^sup>4\<close> below the smallest normal number.  Overflow to infinity is not
  modelled: no intermediate value of the functions below comes near \<open>2\<^sup>1\<^sup>0\<^sup>2\<^sup>4\<close>.
\<close>

definition round_half_even :: "rat \<Rightarrow> int" where
  "round_half_even x =
     (let n = \<lfloor>x\<rfloor>; r = x - of_int n
      in if r < 1 / 2 then n else if 1 / 2 < r then n + 1 else if even n then n else n + 1)"

definition ilog2 :: "rat \<Rightarrow> int" where
  "ilog2 x = (if 1 \<le> x then int (floorlog 2 (nat \<lfloor>x\<rfloor>)) - 1
              else - int (floorlog 2 (nat (\<lceil>1 / x\<rceil> - 1))))"

definition bexp :: "rat \<Rightarrow> int" where
  "bexp x = max (ilog2 \<bar>x\<bar>) (- 1022)"

definition ulp :: "rat \<Rightarrow> rat" where
  "ulp x = 2 powi (bexp x - 52)"

definition fl :: "rat \<Rightarrow> rat" where
  "fl x = (if x = 0 then 0 else of_int (round_half_even (x / ulp x)) * ulp x)"

text \<open>\<open>Math.round\<close> on a finite value: the nearest integer, halves towards \<open>+\<infinity>\<close>.\<close>

definition Math_round :: "rat \<Rightarrow> int" where
  "Math_round x = \<lfloor>x + 1 / 2\<rfloor>"

section \<open>Slot zoom and condense level (utils.ts, calendar-view.tsx)\<close>

text \<open>The numeric literals \<open>0.1\<close> and \<open>0.5\<close> denote the binary64 values nearest to them.\<close>

definition MIN_SLOT_ZOOM :: rat where
  "MIN_SLOT_ZOOM = fl (1 / 10)"

definition MAX_SLOT_ZOOM :: rat where
  "MAX_SLOT_ZOOM = fl (5 / 10)"

definition BASE_SLOT_HEIGHT :: rat where
  "BASE_SLOT_HEIGHT = 72"

definition MAX_CONDENSE_LEVEL :: rat where
  "MAX_CONDENSE_LEVEL = 220"

definition DEFAULT_CONDENSE_LEVEL :: rat where
  "DEFAULT_CONDENSE_LEVEL = 80"

text \<open>\<open>normalizeCondenseLevel(value) = Math.max(0, Math.min(MAX_CONDENSE_LEVEL, value))\<close>\<close>

definition normalizeCondenseLevel :: "number \<Rightarrow> number" where
  "normalizeCondenseLevel v = Math_max (Fin 0) (Math_min (Fin MAX_CONDENSE_LEVEL) v)"

text \<open>Membership in the closed interval \<open>[0, 220]\<close>, with JavaScript's \<open>\<le>\<close>.\<close>

definition in_condense_range :: "number \<Rightarrow> bool" where
  "in_condense_range v \<longleftrightarrow> js_le (Fin 0) v \<and> js_le v (Fin MAX_CONDENSE_LEVEL)"

text \<open>
  \<open>calculateSlotZoom\<close>:
  \<open>safeLevel = Math.max(0, Math.min(MAX_CONDENSE_LEVEL, condenseLevel));
  range = MAX_SLOT_ZOOM - MIN_SLOT_ZOOM;
  return MAX_SLOT_ZOOM - (safeLevel / MAX_CONDENSE_LEVEL) * range\<close>.
  The clamped level is \<open>NaN\<close> or a finite value (the clamp removes infinities); on a
  finite level every operation rounds, and \<open>NaN\<close> propagates through the arithmetic.  The
  two infinite cases cannot arise after the clamp and are given the values the arithmetic
  would produce.
\<close>

definition slot_zoom_range :: rat where
  "slot_zoom_range = fl (MAX_SLOT_ZOOM - MIN_SLOT_ZOOM)"

definition calculateSlotZoom :: "number \<Rightarrow> number" where
  "calculateSlotZoom condenseLevel =
     (case Math_max (Fin 0) (Math_min (Fin MAX_CONDENSE_LEVEL) condenseLevel) of
        Fin safeLevel \<Rightarrow>
          Fin (fl (MAX_SLOT_ZOOM - fl (fl (safeLevel / MAX_CONDENSE_LEVEL) * slot_zoom_range)))
      | NaN \<Rightarrow> NaN
      | PosInf \<Rightarrow> NegInf
      | NegInf \<Rightarrow> PosInf)"

section \<open>JavaScript strings\<close>

text \<open>
  Strings are lists of 8-bit characters (ASCII with the Latin-1 upper half).  White space
  is what \<open>String.prototype.trim\<close> strips in that range: tab, line feed, vertical tab,
  form feed, carriage return, space and the no-break space.  \<open>toLowerCase\<close> maps the
  ASCII capitals and leaves every other character alone.
\<close>

definition is_space :: "char \<Rightarrow> bool" where
  "is_space c \<longleftrightarrow> (of_char c :: nat) \<in> {9, 10, 11, 12, 13, 32, 160}"

definition trimStart :: "string \<Rightarrow> string" where
  "trimStart s = dropWhile is_space s"

definition trimEnd :: "string \<Rightarrow> string" where
  "trimEnd s = rev (dropWhile is_space (rev s))"

definition trim :: "string \<Rightarrow> string" where
  "trim s = trimEnd (trimStart s)"

definition lower_char :: "char \<Rightarrow> char" where
  "lower_char c =
     (let n = (of_char c :: nat) in if 65 \<le> n \<and> n \<le> 90 then char_of (n + 32) else c)"

definition toLowerCase :: "string \<Rightarrow> string" where
  "toLowerCase s = map lower_char s"

text \<open>
  \<open>s.split(sep)\<close> for a separator that is one character out of a class: the pieces
  between the separators, in order; a string without separator is its own single piece.
\<close>

fun split_on :: "(char \<Rightarrow> bool) \<Rightarrow> string \<Rightarrow> string list" where
  "split_on P [] = [[]]"
| "split_on P (c # cs) =
     (let r = split_on P cs in if P c then [] # r else (c # hd r) # tl r)"

text \<open>\<open>s.startsWith(p)\<close>, \<open>s.indexOf(sub, from)\<close> and \<open>s.slice(a, b)\<close>.\<close>

definition startsWith :: "string \<Rightarrow> string \<Rightarrow> bool" where
  "startsWith s p \<longleftrightarrow> take (length p) s = p"

fun find_sub :: "string \<Rightarrow> string \<Rightarrow> nat option" where
  "find_sub sub [] = (if sub = [] then Some 0 else None)"
| "find_sub sub (c # cs) =
     (if take (length sub) (c # cs) = sub then Some 0 else map_option Suc (find_sub sub cs))"

definition indexOf :: "string \<Rightarrow> string \<Rightarrow> nat \<Rightarrow> nat option" where
  "indexOf s sub from =
     map_option (\<lambda>i. i + min from (length s)) (find_sub sub (drop from s))"

definition slice :: "string \<Rightarrow> nat \<Rightarrow> nat \<Rightarrow> string" where
  "slice s a b = take (b - a) (drop a s)"

text \<open>
  \<open>String(n)\<close> for an integer: the decimal digits, with a minus sign for a negative
  number; \<open>s.padStart(n, c)\<close> for a one-character pad string.
\<close>

definition digit_char :: "nat \<Rightarrow> char" where
  "digit_char n = char_of (48 + n)"

fun decimal :: "nat \<Rightarrow> string" where
  "decimal n = (if n < 10 then [digit_char n] else decimal (n div 10) @ [digit_char (n mod 10)])"

definition String_int :: "int \<Rightarrow> string" where
  "String_int i = (if i < 0 then CHR ''-'' # decimal (nat (- i)) else decimal (nat i))"

definition padStart :: "nat \<Rightarrow> char \<Rightarrow> string \<Rightarrow> string" where
  "padStart n c s = replicate (n - length s) c @ s"

section \<open>Style maps (utils.ts)\<close>

text \<open>
  The \<open>unknown\<close> argument of \<open>parseStyleMapping\<close>: \<open>undefined\<close>, \<open>null\<close>, a
  string, a plain object given by its entries in \<open>Object.entries\<close> order, or any other
  value (number, boolean, array), which the function only tests for truthiness and coerces
  with \<open>String(value)\<close>; \<open>Other\<close> carries these two observations.
\<close>

datatype js_value =
    Undefined
  | Null
  | Str string
  | Obj "(string \<times> js_value) list"
  | Other bool string

fun truthy :: "js_value \<Rightarrow> bool" where
  "truthy Undefined = False"
| "truthy Null = False"
| "truthy (Str s) = (s \<noteq> [])"
| "truthy (Obj es) = True"
| "truthy (Other t s) = t"

fun js_String :: "js_value \<Rightarrow> string" where
  "js_String Undefined = ''undefined''"
| "js_String Null = ''null''"
| "js_String (Str s) = s"
| "js_String (Obj es) = ''[object Object]''"
| "js_String (Other t s) = s"

definition DEFAULT_PRIORITY_COLOR_MAP :: "string \<rightharpoonup> string" where
  "DEFAULT_PRIORITY_COLOR_MAP =
     [''low'' \<mapsto> ''#9ca3af'', ''normal'' \<mapsto> ''#60a5fa'',
      ''medium'' \<mapsto> ''#facc15'', ''high'' \<mapsto> ''#f87171'']"

definition DEFAULT_STATUS_STYLE_MAP :: "string \<rightharpoonup> string" where
  "DEFAULT_STATUS_STYLE_MAP =
     [''open'' \<mapsto> ''normal'', ''complete'' \<mapsto> ''strikethrough'',
      ''wont-do'' \<mapsto> ''strikethrough'', ''working'' \<mapsto> ''bold'',
      ''blocked'' \<mapsto> ''italic'']"

text \<open>The separator class of \<open>raw.split(/[,;\n]/)\<close>.\<close>

definition is_list_separator :: "char \<Rightarrow> bool" where
  "is_list_separator c \<longleftrightarrow> c = CHR '','' \<or> c = CHR '';'' \<or> c = CHR 0x0A"

text \<open>
  The body of the loop over \<open>Object.entries(value)\<close>:
  \<open>if (typeof val === "string" && val.trim()) map[key.toLowerCase()] = val.trim()\<close>.
\<close>

fun object_step :: "string \<times> js_value \<Rightarrow> (string \<rightharpoonup> string) \<Rightarrow> (string \<rightharpoonup> string)" where
  "object_step (key, Str val) m =
     (if trim val \<noteq> [] then m(toLowerCase key \<mapsto> trim val) else m)"
| "object_step (key, _) m = m"

text \<open>
  The body of the loop over the string entries:
  \<open>const [key, mapped] = entry.split(":").map(trim); if (!key || !mapped) continue;
  map[key.toLowerCase()] = mapped\<close>.  The first piece always exists; the second is
  \<open>undefined\<close> when the entry has no colon.
\<close>

definition string_step :: "string \<Rightarrow> (string \<rightharpoonup> string) \<Rightarrow> (string \<rightharpoonup> string)" where
  "string_step entry m =
     (let parts = map trim (split_on (\<lambda>c. c = CHR '':'') entry);
          key = hd parts;
          mapped = (if 1 < length parts then Some (parts ! 1) else None)
      in case mapped of
           None \<Rightarrow> m
         | Some v \<Rightarrow> if key = [] \<or> v = [] then m else m(toLowerCase key \<mapsto> v))"

definition parseStyleMapping :: "js_value \<Rightarrow> (string \<rightharpoonup> string) \<Rightarrow> (string \<rightharpoonup> string)" where
  "parseStyleMapping v defaults =
     (if \<not> truthy v then defaults
      else case v of
        Obj es \<Rightarrow> fold object_step es defaults
      | _ \<Rightarrow>
          (let raw = js_String v;
               entries = filter (\<lambda>s. s \<noteq> []) (map trim (split_on is_list_separator raw))
           in fold string_step entries defaults))"

text \<open>
  What an input supplies, read off the input alone: the pairs of a lower-cased key and a
  non-empty trimmed value, in input order.  An object entry supplies one when its value is
  a string that is not blank; a string entry \<open>key:value\<close> supplies one when both sides
  are non-empty after trimming.
\<close>

fun object_override :: "string \<times> js_value \<Rightarrow> (string \<times> string) option" where
  "object_override (key, Str val) =
     (if trim val = [] then None else Some (toLowerCase key, trim val))"
| "object_override (key, _) = None"

definition string_override :: "string \<Rightarrow> (string \<times> string) option" where
  "string_override entry =
     (case map trim (split_on (\<lambda>c. c = CHR '':'') entry) of
        key # mapped # _ \<Rightarrow>
          if key = [] \<or> mapped = [] then None else Some (toLowerCase key, mapped)
      | _ \<Rightarrow> None)"

definition supplied_overrides :: "js_value \<Rightarrow> (string \<times> string) list" where
  "supplied_overrides v =
     (if \<not> truthy v then []
      else case v of
        Obj es \<Rightarrow> List.map_filter object_override es
      | _ \<Rightarrow>
          List.map_filter string_override
            (filter (\<lambda>s. s \<noteq> []) (map trim (split_on is_list_separator (js_String v)))))"

section \<open>JavaScript dates\<close>

text \<open>
  A \<open>Date\<close> holds a time value, the milliseconds since the epoch in UTC (the invalid date
  is not part of the model).  Local time is UTC plus the offset of the time zone, which the
  environment supplies and which is taken to be constant: daylight-saving transitions are not
  modelled.  The calendar functions are those of the ECMAScript specification
  (\<open>Day\<close>, \<open>DayFromYear\<close>, \<open>YearFromTime\<close>, \<open>InLeapYear\<close>, \<open>MonthFromTime\<close>,
  \<open>DateFromTime\<close>, \<open>HourFromTime\<close>, \<open>MinFromTime\<close>), written on day numbers; the year
  of a day is found from an estimate that is off by at most one.
\<close>

datatype Date = Date (getTime: int)

definition msPerDay :: int where
  "msPerDay = 86400000"

definition Day :: "int \<Rightarrow> int" where
  "Day t = t div msPerDay"

definition DayFromYear :: "int \<Rightarrow> int" where
  "DayFromYear y =
     365 * (y - 1970) + (y - 1969) div 4 - (y - 1901) div 100 + (y - 1601) div 400"

definition InLeapYear :: "int \<Rightarrow> int" where
  "InLeapYear y = (if y mod 4 \<noteq> 0 then 0 else if y mod 100 \<noteq> 0 then 1
                   else if y mod 400 \<noteq> 0 then 0 else 1)"

definition YearFromDay :: "int \<Rightarrow> int" where
  "YearFromDay d =
     (let y = 1970 + (400 * d) div 146097
      in if d < DayFromYear y then y - 1 else if DayFromYear (y + 1) \<le> d then y + 1 else y)"

definition DayWithinYear :: "int \<Rightarrow> int" where
  "DayWithinYear d = d - DayFromYear (YearFromDay d)"

definition MonthFromDay :: "int \<Rightarrow> int" where
  "MonthFromDay d =
     (let w = DayWithinYear d; l = InLeapYear (YearFromDay d)
      in if w < 31 then 0 else if w < 59 + l then 1 else if w < 90 + l then 2
         else if w < 120 + l then 3 else if w < 151 + l then 4 else if w < 181 + l then 5
         else if w < 212 + l then 6 else if w < 243 + l then 7 else if w < 273 + l then 8
         else if w < 304 + l then 9 else if w < 334 + l then 10 else 11)"

definition DateFromDay :: "int \<Rightarrow> int" where
  "DateFromDay d =
     (let w = DayWithinYear d; l = InLeapYear (YearFromDay d); m = MonthFromDay d
      in if m = 0 then w + 1 else if m = 1 then w - 30 else if m = 2 then w - 58 - l
         else if m = 3 then w - 89 - l else if m = 4 then w - 119 - l
         else if m = 5 then w - 150 - l else if m = 6 then w - 180 - l
         else if m = 7 then w - 211 - l else if m = 8 then w - 242 - l
         else if m = 9 then w - 272 - l else if m = 10 then w - 303 - l else w - 333 - l)"

text \<open>The getters of a \<open>Date\<close>, in the time zone with offset \<open>tz\<close> milliseconds.\<close>

definition LocalTime :: "int \<Rightarrow> Date \<Rightarrow> int" where
  "LocalTime tz d = getTime d + tz"

definition getFullYear :: "int \<Rightarrow> Date \<Rightarrow> int" where
  "getFullYear tz d = YearFromDay (Day (LocalTime tz d))"

definition getMonth :: "int \<Rightarrow> Date \<Rightarrow> int" where
  "getMonth tz d = MonthFromDay (Day (LocalTime tz d))"

definition getDate :: "int \<Rightarrow> Date \<Rightarrow> int" where
  "getDate tz d = DateFromDay (Day (LocalTime tz d))"

definition getHours :: "int \<Rightarrow> Date \<Rightarrow> int" where
  "getHours tz d = (LocalTime tz d div 3600000) mod 24"

definition getMinutes :: "int \<Rightarrow> Date \<Rightarrow> int" where
  "getMinutes tz d = (LocalTime tz d div 60000) mod 60"

text \<open>
  \<open>d.setHours(0, 0, 0, 0)\<close> on a copy of \<open>d\<close>: the start of the local day of \<open>d\<close>,
  converted back to UTC.
\<close>

definition setHours_0_0_0_0 :: "int \<Rightarrow> Date \<Rightarrow> Date" where
  "setHours_0_0_0_0 tz d = Date (Day (LocalTime tz d) * msPerDay - tz)"

text \<open>
  \<open>formatDateTimeForFrontmatter\<close> (utils.ts; the callback in \<open>updateEntryDates\<close> has a
  copy of it under the same name).
\<close>

definition formatDateTimeForFrontmatter :: "int \<Rightarrow> Date \<Rightarrow> string" where
  "formatDateTimeForFrontmatter tz date =
     (let year = getFullYear tz date;
          month = padStart 2 (CHR ''0'') (String_int (getMonth tz date + 1));
          day = padStart 2 (CHR ''0'') (String_int (getDate tz date));
          hours = padStart 2 (CHR ''0'') (String_int (getHours tz date));
          minutes = padStart 2 (CHR ''0'') (String_int (getMinutes tz date))
      in String_int year @ ''-'' @ month @ ''-'' @ day @ '' '' @ hours @ '':'' @ minutes)"

section \<open>The host application\<close>

text \<open>
  What the plugin consumes from the host and from the runtime, gathered in one record: the
  offset of the local time zone in milliseconds, the clock, and the host functions
  \<open>parsePropertyId\<close>, \<open>normalizePath\<close>, \<open>parseYaml\<close> and \<open>stringifyYaml\<close>.  None of
  them is code of this repository; they are parameters of everything below.

  A property identifier is a string.  \<open>parsePropertyId\<close> yields the kind of the property
  and its name; the adapter reads the field \<open>name\<close> of the result, the event-creation
  service reads a field \<open>property\<close>, which may be missing.
\<close>

datatype property_type = NoteProperty | FileProperty | FormulaProperty

record parsed_property =
  prop_type :: property_type
  prop_name :: string
  prop_property :: "string option"

type_synonym BasesPropertyId = string

text \<open>
  Frontmatter is an object: its keys in insertion order with their values.  An assignment
  \<open>frontmatter[k] = v\<close> replaces the value of an existing key in place and appends a new key.
\<close>

datatype yaml_value = YString string | YNumber int | YBool bool | YOther string

type_synonym frontmatter = "(string \<times> yaml_value) list"

text \<open>
  What \<open>parseYaml\<close> can return: a mapping, a primitive (string, number, boolean), or a
  sequence, which as a JavaScript array can carry own properties besides its items.  The
  items of a sequence and the text of a primitive are opaque.  A call can also throw, or
  return \<open>null\<close>.
\<close>

datatype yaml_doc =
    Mapping frontmatter
  | Primitive string
  | Sequence string frontmatter

datatype 'a outcome = Throws | Returns 'a

record host =
  timezoneOffset :: int
  today :: Date
  parsePropertyId :: "BasesPropertyId \<Rightarrow> parsed_property"
  normalizePath :: "string \<Rightarrow> string"
  parseYaml :: "string \<Rightarrow> yaml_doc option outcome"
  stringifyYaml :: "yaml_doc \<Rightarrow> string"

text \<open>
  A record of the result set (\<open>BasesEntry\<close>): its file, and the typed property lookup
  \<open>getValue\<close>, which returns a value object or \<open>null\<close>, or throws.  A \<open>DateValue\<close>
  carries a \<open>Date\<close> or nothing.
\<close>

datatype Value = DateValue "Date option" | StringValue string | OtherValue

record BasesEntry =
  file_path :: string
  file_basename :: string
  getValue :: "BasesPropertyId \<Rightarrow> Value option outcome"

text \<open>The vault: the paths that exist, each a file with its content or a folder.\<close>

datatype vault_node = TFile string | TFolder

type_synonym vault = "(string \<times> vault_node) list"

definition getAbstractFileByPath :: "vault \<Rightarrow> string \<Rightarrow> vault_node option" where
  "getAbstractFileByPath v path = map_of v path"

section \<open>Calendar adapter (calendar-view.tsx)\<close>

record CalendarEntry =
  entry :: BasesEntry
  startDate :: Date
  endDate :: "Date option"
  title_value :: "Value option option"

text \<open>
  The state of the view that extraction and write-back read: the result set (absent before
  the first query result) and the property bindings loaded from the view configuration.
\<close>

record CalendarView =
  data :: "BasesEntry list option"
  startDateProp :: "BasesPropertyId option"
  endDateProp :: "BasesPropertyId option"
  titleProp :: "BasesPropertyId option"
  allDayProperty :: "BasesPropertyId option"

text \<open>
  \<open>extractDate\<close>: the lookup runs inside \<open>try\<close>; a thrown exception is logged and gives
  \<open>null\<close>, and so do \<open>null\<close>, a value that is not a \<open>DateValue\<close>, and a
  \<open>DateValue\<close> without a date.
\<close>

definition extractDate :: "BasesEntry \<Rightarrow> BasesPropertyId \<Rightarrow> Date option" where
  "extractDate e propId =
     (case getValue e propId of
        Throws \<Rightarrow> None
      | Returns None \<Rightarrow> None
      | Returns (Some (DateValue (Some d))) \<Rightarrow> Some d
      | Returns (Some _) \<Rightarrow> None)"

text \<open>
  The outcome of \<open>updateCalendar\<close>: the empty-state prompt, the calendar rendered from the
  extracted entries, or an exception that leaves the method before it renders, with the
  entries pushed so far left in \<open>this.entries\<close>.
\<close>

datatype pass = EmptyState | Rendered "CalendarEntry list" | Aborted "CalendarEntry list"

text \<open>
  The loop of \<open>updateCalendar\<close> over \<open>this.data.data\<close> (the refresh timer of
  \<open>scheduleRefresh\<close> runs a copy of it).  The start date and the end date are read through
  \<open>extractDate\<close>; the title is read with a bare \<open>entry.getValue(this.titleProp)\<close>,
  outside any \<open>try\<close>.
\<close>

fun extract_entries ::
  "BasesPropertyId \<Rightarrow> BasesPropertyId option \<Rightarrow> BasesPropertyId option \<Rightarrow>
   BasesEntry list \<Rightarrow> CalendarEntry list \<Rightarrow> pass" where
  "extract_entries sp ep tp [] acc = Rendered acc"
| "extract_entries sp ep tp (e # es) acc =
     (case extractDate e sp of
        None \<Rightarrow> extract_entries sp ep tp es acc
      | Some start \<Rightarrow>
          (let end = (case ep of None \<Rightarrow> None | Some p \<Rightarrow> extractDate e p)
           in case tp of
                None \<Rightarrow>
                  extract_entries sp ep tp es
                    (acc @ [\<lparr>entry = e, startDate = start, endDate = end, title_value = None\<rparr>])
              | Some p \<Rightarrow>
                  (case getValue e p of
                     Throws \<Rightarrow> Aborted acc
                   | Returns t \<Rightarrow>
                       extract_entries sp ep tp es
                         (acc @ [\<lparr>entry = e, startDate = start, endDate = end,
                                  title_value = Some t\<rparr>]))))"

definition updateCalendar :: "CalendarView \<Rightarrow> pass" where
  "updateCalendar view =
     (case (data view, startDateProp view) of
        (Some d, Some sp) \<Rightarrow> extract_entries sp (endDateProp view) (titleProp view) d []
      | _ \<Rightarrow> EmptyState)"

text \<open>
  \<open>getNoteField\<close>: the name of a bound note property, \<open>null\<close> for an unbound binding or
  a property that is not a note property.  A field is usable when it is a non-empty string
  (the source tests it for truthiness).
\<close>

definition getNoteField :: "host \<Rightarrow> BasesPropertyId option \<Rightarrow> string option" where
  "getNoteField h propId =
     (case propId of
        None \<Rightarrow> None
      | Some p \<Rightarrow>
          if p = [] then None
          else (let parsed = parsePropertyId h p
                in if prop_type parsed = NoteProperty then Some (prop_name parsed) else None))"

definition bound :: "string option \<Rightarrow> bool" where
  "bound f \<longleftrightarrow> f \<noteq> None \<and> f \<noteq> Some []"

text \<open>
  \<open>durationMinutes = Math.round((newEnd.getTime() - newStart.getTime()) / (1000 * 60))\<close>:
  the subtraction and the division round to binary64.
\<close>

definition durationMinutes :: "Date \<Rightarrow> Date \<Rightarrow> int" where
  "durationMinutes newStart newEnd =
     Math_round (fl (fl (of_int (getTime newEnd) - of_int (getTime newStart)) / (1000 * 60)))"

text \<open>
  \<open>updateEntryDates\<close>.  The method returns without a transaction when no start property
  is configured, when the start property is not a note property, or when an end property is
  configured that is not a note property.  Otherwise it runs one \<open>processFrontMatter\<close>
  transaction on the file of the entry; the callback assigns, in this order, the start
  field, then (when an end property is configured and an end is given) the end field and
  (when positive) \<open>duration\<close>, then (when an all-day field is bound and the all-day
  argument is not \<open>undefined\<close>) the all-day field.
\<close>

record transaction =
  target :: string
  writes :: frontmatter

definition updateEntryDates ::
  "host \<Rightarrow> CalendarView \<Rightarrow> BasesEntry \<Rightarrow> Date \<Rightarrow> Date option \<Rightarrow> bool option \<Rightarrow>
   transaction option" where
  "updateEntryDates h view e newStart newEnd allDay =
     (let startField = getNoteField h (startDateProp view);
          endField = getNoteField h (endDateProp view);
          allDayField = getNoteField h (allDayProperty view)
      in if \<not> bound (startDateProp view) then None
         else if \<not> bound startField then None
         else if bound (endDateProp view) \<and> \<not> bound endField then None
         else Some \<lparr>target = file_path e,
                writes =
                  [(the startField, YString (formatDateTimeForFrontmatter (timezoneOffset h) newStart))]
                  @ (case newEnd of
                       Some newEnd' \<Rightarrow>
                         if bound (endDateProp view) \<and> bound endField then
                           [(the endField,
                             YString (formatDateTimeForFrontmatter (timezoneOffset h) newEnd'))]
                           @ (if 0 < durationMinutes newStart newEnd'
                              then [(''duration'', YNumber (durationMinutes newStart newEnd'))]
                              else [])
                         else []
                     | None \<Rightarrow> [])
                  @ (case allDay of
                       Some a \<Rightarrow> if bound allDayField then [(the allDayField, YBool a)] else []
                     | None \<Rightarrow> [])\<rparr>)"

text \<open>The transaction applied to the frontmatter of the note.\<close>

definition processFrontMatter :: "frontmatter \<Rightarrow> transaction \<Rightarrow> frontmatter" where
  "processFrontMatter fm t = fold (\<lambda>(k, v). AList.update k v) (writes t) fm"

text \<open>
  \<open>handleEventDrop\<close>: for a truthy all-day flag, copies of the new start and of the new
  end (when there is one) are set to the start of their local day; then
  \<open>updateEntryDates\<close> runs with the same all-day flag.
\<close>

definition handleEventDrop ::
  "host \<Rightarrow> CalendarView \<Rightarrow> BasesEntry \<Rightarrow> Date \<Rightarrow> Date option \<Rightarrow> bool option \<Rightarrow>
   transaction option" where
  "handleEventDrop h view e newStart newEnd allDay =
     (let normalizedStart =
            (if allDay = Some True then setHours_0_0_0_0 (timezoneOffset h) newStart
             else newStart);
          normalizedEnd =
            (if allDay = Some True then map_option (setHours_0_0_0_0 (timezoneOffset h)) newEnd
             else newEnd)
      in updateEntryDates h view e normalizedStart normalizedEnd allDay)"

definition handleEventResize ::
  "host \<Rightarrow> CalendarView \<Rightarrow> BasesEntry \<Rightarrow> Date \<Rightarrow> Date option \<Rightarrow> bool option \<Rightarrow>
   transaction option" where
  "handleEventResize h view e newStart newEnd allDay =
     (case newEnd of
        None \<Rightarrow> None
      | Some _ \<Rightarrow> updateEntryDates h view e newStart newEnd allDay)"

section \<open>Calendar rendering component (CalendarReactView)\<close>

text \<open>
  The widget event built from a calendar entry by the \<open>events\<close> memo.  The fields that
  only carry styling (class names, priority colour) do not depend on the dates and are left
  out.
\<close>

record widget_event =
  event_id :: string
  event_title :: string
  event_start :: Date
  event_end :: Date
  event_allDay :: bool
  display :: string
  originalEndDate :: "Date option"

definition to_widget_event :: "host \<Rightarrow> CalendarEntry \<Rightarrow> widget_event" where
  "to_widget_event h calEntry =
     (let start = Date (getTime (startDate calEntry));
          end = (case endDate calEntry of
                   Some e \<Rightarrow> Date (getTime e)
                 | None \<Rightarrow> Date (getTime start + 60 * 60 * 1000));
          isAllDay = (getHours (timezoneOffset h) start = 0
                      \<and> getMinutes (timezoneOffset h) start = 0
                      \<and> getHours (timezoneOffset h) end = 0
                      \<and> getMinutes (timezoneOffset h) end = 0)
      in \<lparr>event_id = file_path (entry calEntry),
          event_title = file_basename (entry calEntry),
          event_start = start,
          event_end = end,
          event_allDay = isAllDay,
          display = (if isAllDay then ''block'' else ''auto''),
          originalEndDate = endDate calEntry\<rparr>)"

definition events :: "host \<Rightarrow> CalendarEntry list \<Rightarrow> widget_event list" where
  "events h entries = map (to_widget_event h) entries"


text \<open>
  What the widget hands to \<open>eventDrop\<close>: the entry of the dragged event and its new start
  and end, either of which can be \<open>null\<close>.
\<close>

record drop_info =
  drop_entry :: BasesEntry
  drop_start :: "Date option"
  drop_end :: "Date option"

text \<open>
  The \<open>onEventDrop\<close> property is a function of the entry, the new start, the new end and
  the all-day flag.  \<open>handleDrop\<close> reverts the drag when the property is missing or the
  event has no start; otherwise it calls \<open>onEventDrop(entry, newStart, newEnd ?? newStart)\<close>
  with three arguments, so the fourth parameter of the callee is \<open>undefined\<close>.
\<close>

datatype 'r drop_result = Reverted | Called 'r

definition handleDrop ::
  "(BasesEntry \<Rightarrow> Date \<Rightarrow> Date option \<Rightarrow> bool option \<Rightarrow> 'r) option \<Rightarrow> drop_info \<Rightarrow>
   'r drop_result" where
  "handleDrop onEventDrop dropInfo =
     (case onEventDrop of
        None \<Rightarrow> Reverted
      | Some f \<Rightarrow>
          (case drop_start dropInfo of
             None \<Rightarrow> Reverted
           | Some newStart \<Rightarrow>
               Called (f (drop_entry dropInfo) newStart
                         (Some (case drop_end dropInfo of None \<Rightarrow> newStart | Some e \<Rightarrow> e))
                         None)))"

text \<open>
  The property as the adapter passes it in \<open>renderReactCalendar\<close>:
  \<open>(entry, newStart, newEnd, allDay) => this.handleEventDrop(entry, newStart, newEnd, allDay)\<close>.
\<close>

definition onEventDrop ::
  "host \<Rightarrow> CalendarView \<Rightarrow> BasesEntry \<Rightarrow> Date \<Rightarrow> Date option \<Rightarrow> bool option \<Rightarrow>
   transaction option" where
  "onEventDrop h view = (\<lambda>e newStart newEnd allDay. handleEventDrop h view e newStart newEnd allDay)"

section \<open>Event-creation service (NewEventService)\<close>

record NewEventServiceConfig =
  startProperty :: "BasesPropertyId option"
  endProperty :: "BasesPropertyId option"
  allDayPropertyId :: "BasesPropertyId option"
  folderPath :: "string option"
  templatePath :: "string option"

text \<open>
  \<open>noteField\<close>: for a note property the field \<open>property\<close> of the parsed identifier, for
  any other property the identifier itself.
\<close>

definition noteField :: "host \<Rightarrow> BasesPropertyId option \<Rightarrow> string option" where
  "noteField h propId =
     (case propId of
        None \<Rightarrow> None
      | Some p \<Rightarrow>
          if p = [] then None
          else (let parsed = parsePropertyId h p
                in if prop_type parsed = NoteProperty then prop_property parsed else Some p))"

definition isAllDay :: "host \<Rightarrow> Date \<Rightarrow> Date \<Rightarrow> bool" where
  "isAllDay h start end \<longleftrightarrow>
     getHours (timezoneOffset h) start = 0 \<and> getMinutes (timezoneOffset h) start = 0
     \<and> getHours (timezoneOffset h) end = 0 \<and> getMinutes (timezoneOffset h) end = 0"

text \<open>
  \<open>buildFrontmatter\<close>: an object that starts as \<open>{ title }\<close> and is assigned, in this
  order, the start field and the end field (each when usable) and the all-day field, whose
  name falls back to \<open>allDay\<close> when \<open>noteField\<close> gives \<open>null\<close> or \<open>undefined\<close>.
\<close>

definition buildFrontmatter ::
  "host \<Rightarrow> NewEventServiceConfig \<Rightarrow> string \<Rightarrow> Date \<Rightarrow> Date \<Rightarrow> (string \<times> string) list" where
  "buildFrontmatter h cfg title start end =
     (let result0 = [(''title'', title)];
          startField = noteField h (startProperty cfg);
          endField = noteField h (endProperty cfg);
          result1 = (if bound startField
                     then AList.update (the startField)
                            (formatDateTimeForFrontmatter (timezoneOffset h) start) result0
                     else result0);
          result2 = (if bound endField
                     then AList.update (the endField)
                            (formatDateTimeForFrontmatter (timezoneOffset h) end) result1
                     else result1);
          allDayField = (case noteField h (allDayPropertyId cfg) of
                           None \<Rightarrow> ''allDay'' | Some f \<Rightarrow> f)
      in AList.update allDayField (if isAllDay h start end then ''true'' else ''false'') result2)"

text \<open>
  \<open>Object.assign(fmObj, fields)\<close>: every field is assigned to the target in order.  On a
  mapping and on a sequence this changes the object; on a primitive the assignments go to a
  wrapper that is dropped, and the variable keeps the primitive.
\<close>

definition assign_fields :: "frontmatter \<Rightarrow> (string \<times> string) list \<Rightarrow> frontmatter" where
  "assign_fields fm computed = fold (\<lambda>(k, v). AList.update k (YString v)) computed fm"

fun Object_assign :: "yaml_doc \<Rightarrow> (string \<times> string) list \<Rightarrow> yaml_doc" where
  "Object_assign (Mapping fm) computed = Mapping (assign_fields fm computed)"
| "Object_assign (Primitive p) computed = Primitive p"
| "Object_assign (Sequence items props) computed = Sequence items (assign_fields props computed)"

datatype error = YamlParseError | TypeError

text \<open>
  \<open>buildNoteContent\<close>.  The template is taken as having a frontmatter block when, after
  its leading white space, it starts with \<open>---\<close> and \<open>---\<close> occurs again from index 3
  on; the text between the two is trimmed and parsed (an empty text gives the empty
  object), the fields are assigned to the parsed object, and the rest of the template,
  without its leading white space, follows the serialized object.  In every other case the
  fields alone are serialized and the untouched template follows.  A parse error, and the
  \<open>TypeError\<close> of assigning to a \<open>null\<close> parse result, leave the method as exceptions.
\<close>

definition synthesized :: "host \<Rightarrow> string \<Rightarrow> (string \<times> string) list \<Rightarrow> string" where
  "synthesized h tpl computed =
     ''---'' @ [CHR 0x0A] @ stringifyYaml h (Mapping (map (\<lambda>(k, v). (k, YString v)) computed))
       @ ''---'' @ [CHR 0x0A, CHR 0x0A] @ tpl"

definition buildNoteContent ::
  "host \<Rightarrow> string option \<Rightarrow> (string \<times> string) list \<Rightarrow> error + string" where
  "buildNoteContent h templateContent computed =
     (let tpl = (case templateContent of None \<Rightarrow> [] | Some t \<Rightarrow> t);
          trimmed = trimStart tpl
      in if startsWith trimmed ''---'' then
           (case indexOf trimmed ''---'' 3 of
              Some end \<Rightarrow>
                (let fmRaw = trim (slice trimmed 3 end);
                     body = trimStart (drop (end + 3) trimmed);
                     parsed = (if fmRaw \<noteq> [] then parseYaml h fmRaw
                               else Returns (Some (Mapping [])))
                 in case parsed of
                      Throws \<Rightarrow> Inl YamlParseError
                    | Returns None \<Rightarrow> Inl TypeError
                    | Returns (Some fmObj) \<Rightarrow>
                        Inr (''---'' @ [CHR 0x0A] @ stringifyYaml h (Object_assign fmObj computed)
                             @ ''---'' @ [CHR 0x0A, CHR 0x0A] @ body))
            | None \<Rightarrow> Inr (synthesized h tpl computed))
         else Inr (synthesized h tpl computed))"

text \<open>
  \<open>loadTemplate\<close>: the content of the file at the normalized template path, \<open>null\<close> when
  no path is configured or the path is not a file.
\<close>

definition loadTemplate :: "host \<Rightarrow> vault \<Rightarrow> string option \<Rightarrow> string option" where
  "loadTemplate h v path =
     (case path of
        None \<Rightarrow> None
      | Some p \<Rightarrow>
          if p = [] then None
          else (case getAbstractFileByPath v (normalizePath h p) of
                  Some (TFile content) \<Rightarrow> Some content
                | _ \<Rightarrow> None))"

text \<open>
  \<open>resolveFolderPath\<close>: the configured folder, trimmed and normalized, or the path of the
  vault root, which is \<open>/\<close>.
\<close>

definition resolveFolderPath :: "host \<Rightarrow> NewEventServiceConfig \<Rightarrow> string" where
  "resolveFolderPath h cfg =
     (case folderPath cfg of
        None \<Rightarrow> ''/''
      | Some f \<Rightarrow> if trim f \<noteq> [] then normalizePath h (trim f) else ''/'')"

text \<open>
  \<open>buildUniquePath\<close>.  The date suffix is built from the \<open>date\<close> argument.  The loop
  runs while the current path exists and can run forever, so the function is partial:
  \<open>None\<close> stands for a search that never returns.
\<close>

definition dateSuffix :: "host \<Rightarrow> Date \<Rightarrow> string" where
  "dateSuffix h date =
     String_int (getFullYear (timezoneOffset h) date) @ ''-''
     @ padStart 2 (CHR ''0'') (String_int (getMonth (timezoneOffset h) date + 1)) @ ''-''
     @ padStart 2 (CHR ''0'') (String_int (getDate (timezoneOffset h) date))"

definition numbered_path :: "host \<Rightarrow> string \<Rightarrow> string \<Rightarrow> string \<Rightarrow> nat \<Rightarrow> string" where
  "numbered_path h folder title suffix counter =
     normalizePath h (folder @ ''/'' @ title @ '' '' @ suffix @ '' '' @ decimal counter @ ''.md'')"

partial_function (option) unique_path_loop ::
  "host \<Rightarrow> vault \<Rightarrow> string \<Rightarrow> string \<Rightarrow> string \<Rightarrow> string \<Rightarrow> nat \<Rightarrow> string option" where
  "unique_path_loop h v folder title suffix path counter =
     (if getAbstractFileByPath v path \<noteq> None
      then unique_path_loop h v folder title suffix
             (numbered_path h folder title suffix counter) (counter + 1)
      else Some path)"

definition buildUniquePath :: "host \<Rightarrow> vault \<Rightarrow> string \<Rightarrow> string \<Rightarrow> Date \<Rightarrow> string option" where
  "buildUniquePath h v folder title date =
     (let baseTitle = title @ ''.md'';
          path = normalizePath h (folder @ ''/'' @ baseTitle)
      in if getAbstractFileByPath v path = None then Some path
         else unique_path_loop h v folder title (dateSuffix h date)
                (normalizePath h (folder @ ''/'' @ title @ '' '' @ dateSuffix h date @ ''.md'')) 1)"

text \<open>
  \<open>createEvent\<close>, with the answer of the title prompt as an argument (\<open>None\<close> for a
  cancelled prompt): the path and the content of the note it creates.
\<close>

datatype creation = Cancelled | Failed error | Created string string

definition createEvent ::
  "host \<Rightarrow> NewEventServiceConfig \<Rightarrow> vault \<Rightarrow> string option \<Rightarrow> Date \<Rightarrow> Date \<Rightarrow>
   creation option" where
  "createEvent h cfg v prompted start end =
     (case prompted of
        None \<Rightarrow> Some Cancelled
      | Some title \<Rightarrow>
          if trim title = [] then Some Cancelled
          else (let safeTitle = trim title;
                    folder = resolveFolderPath h cfg
                in case buildUniquePath h v folder safeTitle start of
                     None \<Rightarrow> None
                   | Some path \<Rightarrow>
                       (let template = loadTemplate h v (templatePath cfg);
                            fm = buildFrontmatter h cfg safeTitle start end
                        in case buildNoteContent h template fm of
                             Inl err \<Rightarrow> Some (Failed err)
                           | Inr content \<Rightarrow> Some (Created path content))))"

section \<open>Notions used to state the properties\<close>

text \<open>A number below 100 written with exactly two decimal digits.\<close>

definition two_digits :: "int \<Rightarrow> string" where
  "two_digits n = [digit_char (nat n div 10), digit_char (nat n mod 10)]"

text \<open>
  The difference of two dates in whole minutes, in exact arithmetic: the milliseconds
  between them divided by 60000 and rounded to the nearest integer, halves upwards.
\<close>

definition whole_minutes_between :: "Date \<Rightarrow> Date \<Rightarrow> int" where
  "whole_minutes_between s e = (getTime e - getTime s + 30000) div 60000"

text \<open>
  A host for the examples: UTC as the local time zone, property identifiers of the form
  \<open>note.name\<close> for note properties, a path normalization that strips leading slashes, a
  YAML parser that knows the mapping \<open>tags: work\<close> and the plain scalar \<open>Agenda\<close> and
  rejects every other text, and a serializer that writes one \<open>key: value\<close> line for each
  key of a mapping and a scalar on a line of its own.
\<close>

definition example_host :: host where
  "example_host =
     \<lparr>timezoneOffset = 0,
      today = Date 1710028800000,
      parsePropertyId =
        (\<lambda>p. if take 5 p = ''note.''
             then \<lparr>prop_type = NoteProperty, prop_name = drop 5 p,
                   prop_property = Some (drop 5 p)\<rparr>
             else \<lparr>prop_type = FormulaProperty, prop_name = p, prop_property = None\<rparr>),
      normalizePath = dropWhile (\<lambda>c. c = CHR ''/''),
      parseYaml =
        (\<lambda>s. if s = ''tags: work'' then Returns (Some (Mapping [(''tags'', YString ''work'')]))
             else if s = ''Agenda'' then Returns (Some (Primitive ''Agenda''))
             else Throws),
      stringifyYaml =
        (\<lambda>d. case d of
               Mapping fm \<Rightarrow>
                 concat (map (\<lambda>(k, v). k @ '': ''
                                @ (case v of YString s \<Rightarrow> s | YNumber n \<Rightarrow> String_int n
                                   | YBool b \<Rightarrow> (if b then ''true'' else ''false'')
                                   | YOther s \<Rightarrow> s) @ [CHR 0x0A]) fm)
             | Primitive p \<Rightarrow> p @ [CHR 0x0A]
             | Sequence items props \<Rightarrow> items)\<rparr>"

definition example_view :: CalendarView where
  "example_view =
     \<lparr>data = None, startDateProp = Some ''note.start'', endDateProp = Some ''note.end'',
      titleProp = None, allDayProperty = Some ''note.allDay''\<rparr>"

definition example_record :: BasesEntry where
  "example_record =
     \<lparr>file_path = ''Events/Review.md'', file_basename = ''Review'',
      getValue = (\<lambda>p. if p = ''note.start''
                       then Returns (Some (DateValue (Some (Date 1709283600000))))
                       else Returns None)\<rparr>"

text \<open>
  A result set of one record whose start date resolves and whose title lookup throws, in a
  view that binds a title property.
\<close>

definition throwing_title_record :: BasesEntry where
  "throwing_title_record =
     \<lparr>file_path = ''Events/Review.md'', file_basename = ''Review'',
      getValue = (\<lambda>p. if p = ''note.start''
                       then Returns (Some (DateValue (Some (Date 1709283600000))))
                       else if p = ''formula.label'' then Throws
                       else Returns None)\<rparr>"

definition throwing_title_view :: CalendarView where
  "throwing_title_view =
     \<lparr>data = Some [throwing_title_record, example_record],
      startDateProp = Some ''note.start'', endDateProp = None,
      titleProp = Some ''formula.label'', allDayProperty = None\<rparr>"

text \<open>A start-date binding resolves on a record when \<open>extractDate\<close> yields a date.\<close>

definition resolves :: "BasesPropertyId \<Rightarrow> BasesEntry \<Rightarrow> bool" where
  "resolves sp e \<longleftrightarrow> extractDate e sp \<noteq> None"

text \<open>The title lookup of the pass is safe on a record when no title is bound or it returns.\<close>

definition title_returns :: "BasesPropertyId option \<Rightarrow> BasesEntry \<Rightarrow> bool" where
  "title_returns tp e \<longleftrightarrow> (case tp of None \<Rightarrow> True | Some p \<Rightarrow> getValue e p \<noteq> Throws)"

text \<open>A drop of the example record onto 2024-03-02 09:00, the widget giving no end.\<close>

definition example_drop :: drop_info where
  "example_drop =
     \<lparr>drop_entry = example_record, drop_start = Some (Date 1709370000000), drop_end = None\<rparr>"



text \<open>
  A vault that holds \<open>Meeting.md\<close> at its root, and one that also holds the first two
  dated candidates for an event on 2024-03-02.
\<close>

definition meeting_vault :: vault where
  "meeting_vault = [(''Meeting.md'', TFile [])]"

definition crowded_vault :: vault where
  "crowded_vault =
     [(''Meeting.md'', TFile []), (''Meeting 2024-03-02.md'', TFile []),
      (''Meeting 2024-03-02 1.md'', TFile [])]"


text \<open>
  The frontmatter block of a template as \<open>buildNoteContent\<close> finds it: the template has
  one when, after its leading white space, it starts with \<open>---\<close> and \<open>---\<close> occurs
  again from index 3 on; the text of the block lies between the two, trimmed, and the body
  is what follows the second, without its leading white space.
\<close>

definition has_frontmatter_block :: "string \<Rightarrow> bool" where
  "has_frontmatter_block tpl \<longleftrightarrow>
     startsWith (trimStart tpl) ''---'' \<and> indexOf (trimStart tpl) ''---'' 3 \<noteq> None"

definition frontmatter_text :: "string \<Rightarrow> string" where
  "frontmatter_text tpl =
     trim (slice (trimStart tpl) 3 (the (indexOf (trimStart tpl) ''---'' 3)))"

definition template_body :: "string \<Rightarrow> string" where
  "template_body tpl =
     trimStart (drop (the (indexOf (trimStart tpl) ''---'' 3) + 3) (trimStart tpl))"

text \<open>
  The object a block text stands for: the empty mapping for an empty text, what the parser
  returns otherwise.
\<close>

definition frontmatter_object :: "host \<Rightarrow> string \<Rightarrow> yaml_doc option outcome" where
  "frontmatter_object h tpl =
     (if frontmatter_text tpl \<noteq> [] then parseYaml h (frontmatter_text tpl)
      else Returns (Some (Mapping [])))"

text \<open>
  A template whose block between the two \<open>---\<close> lines is the plain text \<open>Agenda\<close>, one
  whose block is a mapping and one whose block the parser rejects; a vault that stores the
  first, and a service configuration that uses it.
\<close>

definition agenda_template :: string where
  "agenda_template =
     ''---'' @ [CHR 0x0A] @ ''Agenda'' @ [CHR 0x0A] @ ''---'' @ [CHR 0x0A] @ ''Bring notes''"

definition tagged_template :: string where
  "tagged_template =
     ''---'' @ [CHR 0x0A] @ ''tags: work'' @ [CHR 0x0A] @ ''---'' @ [CHR 0x0A] @ ''Bring notes''"

definition broken_template :: string where
  "broken_template =
     ''---'' @ [CHR 0x0A] @ ''tags: [work'' @ [CHR 0x0A] @ ''---'' @ [CHR 0x0A] @ ''Bring notes''"

definition agenda_vault :: vault where
  "agenda_vault = [(''Templates/Event.md'', TFile agenda_template)]"

definition agenda_config :: NewEventServiceConfig where
  "agenda_config =
     \<lparr>startProperty = Some ''note.start'', endProperty = Some ''note.end'',
      allDayPropertyId = None, folderPath = None, templatePath = Some ''Templates/Event.md''\<rparr>"
section \<open>Properties of the rounding to binary64\<close>

lemma round_half_even_of_int: "round_half_even (of_int n) = n"
  by (simp add: round_half_even_def)

lemma round_half_even_bounds:
  "\<lfloor>x\<rfloor> \<le> round_half_even x" "round_half_even x \<le> \<lfloor>x\<rfloor> + 1"
  by (simp_all add: round_half_even_def Let_def)

lemma round_half_even_mono:
  assumes "x \<le> y"
  shows "round_half_even x \<le> round_half_even y"
proof (cases "\<lfloor>x\<rfloor> = \<lfloor>y\<rfloor>")
  case True
  with assms show ?thesis
    by (auto simp: round_half_even_def Let_def)
next
  case False
  with assms have "\<lfloor>x\<rfloor> + 1 \<le> \<lfloor>y\<rfloor>"
    using floor_mono [of x y] by linarith
  with round_half_even_bounds(2) [of x] round_half_even_bounds(1) [of y]
  show ?thesis by linarith
qed

lemma round_half_even_minus: "round_half_even (- x) = - round_half_even x"
proof (cases "x \<in> \<int>")
  case True
  then obtain n where "x = of_int n" by (auto elim: Ints_cases)
  then show ?thesis
    by (simp add: round_half_even_of_int flip: of_int_minus)
next
  case False
  then have ne: "x \<noteq> of_int \<lfloor>x\<rfloor>" by (metis Ints_of_int)
  then have f: "\<lfloor>- x\<rfloor> = - \<lfloor>x\<rfloor> - 1"
    by (simp add: floor_minus ceiling_altdef)
  show ?thesis
    unfolding round_half_even_def Let_def f
    using ne by (auto simp: algebra_simps)
qed

lemma ilog2_bounds:
  assumes "0 < x"
  shows "2 powi (ilog2 x) \<le> x" and "x < 2 powi (ilog2 x + 1)"
proof -
  show "2 powi (ilog2 x) \<le> x"
  proof (cases "1 \<le> x")
    case True
    define n where "n = nat \<lfloor>x\<rfloor>"
    have n: "0 < n" "rat_of_nat n \<le> x" using True by (auto simp: n_def le_nat_floor)
    from floorlog_bounds [of n 2] n have b: "2 ^ (floorlog 2 n - 1) \<le> n" by simp
    have "floorlog 2 n \<noteq> 0" using n by (simp add: floorlog_eq_zero_iff)
    then have p: "0 < floorlog 2 n" by simp
    have e: "ilog2 x = int (floorlog 2 n - 1)" using True p by (simp add: ilog2_def n_def)
    have "(2::rat) ^ (floorlog 2 n - 1) \<le> rat_of_nat n"
      using b by (metis of_nat_le_iff of_nat_numeral of_nat_power)
    with n(2) have "(2::rat) ^ (floorlog 2 n - 1) \<le> x" by linarith
    then show ?thesis unfolding e by (simp only: power_int_of_nat)
  next
    case False
    define c where "c = nat (\<lceil>1 / x\<rceil> - 1)"
    have y: "1 < 1 / x" using False assms by simp
    have "rat_of_int 1 < 1 / x" using y by (simp only: of_int_1)
    then have "1 < \<lceil>1 / x\<rceil>" by (simp only: less_ceiling_iff)
    then have k: "0 \<le> \<lceil>1 / x\<rceil> - 1" and c1: "0 < c" unfolding c_def by linarith+
    have "1 / x \<le> of_int \<lceil>1 / x\<rceil>" by (rule le_of_int_ceiling)
    also have "\<dots> = rat_of_nat c + 1" unfolding c_def of_nat_nat [OF k] by simp
    finally have yc: "1 / x \<le> rat_of_nat (c + 1)" by simp
    from floorlog_bounds [of c 2] c1 have "c < 2 ^ floorlog 2 c" by simp
    then have "c + 1 \<le> 2 ^ floorlog 2 c" by simp
    then have "rat_of_nat (c + 1) \<le> 2 ^ floorlog 2 c"
      by (metis of_nat_le_iff of_nat_numeral of_nat_power)
    with yc have "1 / x \<le> 2 ^ floorlog 2 c" by linarith
    then have "1 / 2 ^ floorlog 2 c \<le> x"
      using assms by (simp add: field_simps)
    moreover have e: "ilog2 x = - int (floorlog 2 c)" using False by (simp add: ilog2_def c_def)
    ultimately show ?thesis unfolding e by (simp only: power_int_minus_divide power_int_of_nat)
  qed
  show "x < 2 powi (ilog2 x + 1)"
  proof (cases "1 \<le> x")
    case True
    define n where "n = nat \<lfloor>x\<rfloor>"
    have n: "0 < n" using True by (auto simp: n_def)
    have xn: "x < rat_of_nat (n + 1)" using True unfolding n_def by simp linarith
    from floorlog_bounds [of n 2] n have "n + 1 \<le> 2 ^ floorlog 2 n" by simp
    then have "rat_of_nat (n + 1) \<le> 2 ^ floorlog 2 n"
      by (metis of_nat_le_iff of_nat_numeral of_nat_power)
    then have "x < 2 ^ floorlog 2 n" using xn by linarith
    moreover have e: "ilog2 x + 1 = int (floorlog 2 n)" using True by (simp add: ilog2_def n_def)
    ultimately show ?thesis unfolding e by (simp only: power_int_of_nat)
  next
    case False
    define c where "c = nat (\<lceil>1 / x\<rceil> - 1)"
    have y: "1 < 1 / x" using False assms by simp
    have "rat_of_int 1 < 1 / x" using y by (simp only: of_int_1)
    then have "1 < \<lceil>1 / x\<rceil>" by (simp only: less_ceiling_iff)
    then have k: "0 \<le> \<lceil>1 / x\<rceil> - 1" and c1: "0 < c" unfolding c_def by linarith+
    have "rat_of_int (\<lceil>1 / x\<rceil> - 1) < 1 / x"
      using ceiling_correct [of "1 / x"] by simp
    then have cy: "rat_of_nat c < 1 / x"
      unfolding c_def of_nat_nat [OF k] .
    from floorlog_bounds [of c 2] c1 have b: "2 ^ (floorlog 2 c - 1) \<le> c" by simp
    have "floorlog 2 c \<noteq> 0" using c1 by (simp add: floorlog_eq_zero_iff)
    then have p: "0 < floorlog 2 c" by simp
    have "(2::rat) ^ (floorlog 2 c - 1) \<le> rat_of_nat c"
      using b by (metis of_nat_le_iff of_nat_numeral of_nat_power)
    with cy have "2 ^ (floorlog 2 c - 1) < 1 / x" by linarith
    then have "x < 1 / 2 ^ (floorlog 2 c - 1)"
      using assms by (simp add: field_simps)
    moreover have e: "ilog2 x + 1 = - int (floorlog 2 c - 1)" using False p by (simp add: ilog2_def c_def)
    ultimately show ?thesis unfolding e by (simp only: power_int_minus_divide power_int_of_nat)
  qed
qed


lemma pow2_add: "(2::rat) powi a * 2 powi b = 2 powi (a + b)"
  by (simp add: power_int_add)

lemma pow2_diff: "(2::rat) powi a / 2 powi b = 2 powi (a - b)"
  by (simp add: power_int_diff)

lemma pow2_le_iff: "(2::rat) powi a \<le> 2 powi b \<longleftrightarrow> a \<le> b"
proof
  assume l: "(2::rat) powi a \<le> 2 powi b"
  show "a \<le> b"
  proof (rule ccontr)
    assume "\<not> a \<le> b"
    then have "(2::rat) powi b < 2 powi a"
      by (intro power_int_strict_increasing) simp_all
    with l show False by simp
  qed
next
  assume "a \<le> b"
  then show "(2::rat) powi a \<le> 2 powi b"
    by (intro power_int_increasing) simp_all
qed

lemma pow2_less_iff: "(2::rat) powi a < 2 powi b \<longleftrightarrow> a < b"
  using pow2_le_iff [of b a] by (simp add: not_le [symmetric])

lemma pow2_nat: "0 \<le> k \<Longrightarrow> (2::rat) powi k = rat_of_int (2 ^ nat k)"
  by (simp add: power_int_nonneg_exp)

lemma ilog2_mono:
  assumes "0 < x" "x \<le> y"
  shows "ilog2 x \<le> ilog2 y"
proof (rule ccontr)
  assume "\<not> ilog2 x \<le> ilog2 y"
  then have "ilog2 y + 1 \<le> ilog2 x" by simp
  then have "(2::rat) powi (ilog2 y + 1) \<le> 2 powi (ilog2 x)"
    by (intro power_int_increasing) simp_all
  with ilog2_bounds(1) [OF assms(1)] ilog2_bounds(2) [of y] assms
  show False by simp
qed

lemma ulp_pos: "0 < ulp x"
  by (simp add: ulp_def)

lemma ulp_minus: "ulp (- x) = ulp x"
  by (simp add: ulp_def bexp_def)

lemma fl_minus: "fl (- x) = - fl x"
  by (simp add: fl_def ulp_minus round_half_even_minus)

lemma round_half_even_nonneg: "0 \<le> x \<Longrightarrow> 0 \<le> round_half_even x"
  using round_half_even_mono [of 0 x] round_half_even_of_int [of 0] by simp

lemma fl_nonneg: "0 \<le> x \<Longrightarrow> 0 \<le> fl x"
  using ulp_pos [of x] by (simp add: fl_def round_half_even_nonneg)

lemma ulp_bexp: "ulp x = 2 powi (bexp x - 52)"
  by (simp add: ulp_def)

lemma fl_le_binade_top:
  assumes "0 < x"
  shows "fl x \<le> 2 powi (bexp x + 1)"
proof -
  have "x < 2 powi (ilog2 x + 1)" by (rule ilog2_bounds(2) [OF assms])
  also have "\<dots> \<le> 2 powi (bexp x + 1)"
    using assms by (intro power_int_increasing) (simp_all add: bexp_def)
  finally have "x / ulp x \<le> 2 powi (bexp x + 1) / ulp x"
    using ulp_pos [of x] by (simp add: divide_right_mono)
  also have "2 powi (bexp x + 1) / ulp x = (2::rat) powi 53"
    unfolding ulp_bexp pow2_diff by simp
  also have "\<dots> = rat_of_int (2 ^ nat 53)" by (rule pow2_nat) simp
  finally have "round_half_even (x / ulp x) \<le> 2 ^ nat 53"
    using round_half_even_mono round_half_even_of_int by metis
  then have "rat_of_int (round_half_even (x / ulp x)) \<le> rat_of_int (2 ^ nat 53)"
    by (simp only: of_int_le_iff)
  also have "rat_of_int (2 ^ nat 53) = 2 powi 53" by (rule pow2_nat [symmetric]) simp
  finally have "rat_of_int (round_half_even (x / ulp x)) * ulp x \<le> 2 powi 53 * ulp x"
    using ulp_pos [of x] by (simp only: mult_le_cancel_right_pos)
  also have "2 powi 53 * ulp x = 2 powi (53 + (bexp x - 52))"
    unfolding ulp_bexp by (rule pow2_add)
  also have "53 + (bexp x - 52) = bexp x + 1" by simp
  finally show ?thesis using assms by (simp add: fl_def)
qed

lemma fl_ge_binade_bottom:
  assumes "0 < x" "- 1022 \<le> ilog2 x"
  shows "2 powi (bexp x) \<le> fl x"
proof -
  have b: "bexp x = ilog2 x" using assms by (simp add: bexp_def)
  have "2 powi (bexp x) \<le> x" unfolding b by (rule ilog2_bounds(1) [OF assms(1)])
  then have "2 powi (bexp x) / ulp x \<le> x / ulp x"
    using ulp_pos [of x] by (simp add: divide_right_mono)
  moreover have "2 powi (bexp x) / ulp x = (2::rat) powi 52"
    unfolding ulp_bexp pow2_diff by simp
  moreover have p: "(2::rat) powi 52 = rat_of_int (2 ^ nat 52)" by (rule pow2_nat) simp
  ultimately have "2 ^ nat 52 \<le> round_half_even (x / ulp x)"
    using round_half_even_mono round_half_even_of_int by metis
  then have "rat_of_int (2 ^ nat 52) \<le> rat_of_int (round_half_even (x / ulp x))"
    by (simp only: of_int_le_iff)
  then have "2 powi 52 * ulp x \<le> rat_of_int (round_half_even (x / ulp x)) * ulp x"
    unfolding p [symmetric] using ulp_pos [of x] by (simp only: mult_le_cancel_right_pos)
  moreover have "2 powi 52 * ulp x = 2 powi (52 + (bexp x - 52))"
    unfolding ulp_bexp by (rule pow2_add)
  moreover have "52 + (bexp x - 52) = bexp x" by simp
  ultimately show ?thesis using assms by (simp add: fl_def)
qed

lemma fl_mono_pos:
  assumes "0 < x" "x \<le> y"
  shows "fl x \<le> fl y"
proof -
  have y: "0 < y" using assms by simp
  have "ilog2 x \<le> ilog2 y" by (rule ilog2_mono [OF assms])
  then have le: "bexp x \<le> bexp y" using assms by (simp add: bexp_def)
  show ?thesis
  proof (cases "bexp x = bexp y")
    case True
    then have u: "ulp x = ulp y" by (simp add: ulp_bexp)
    have "x / ulp y \<le> y / ulp y"
      using assms ulp_pos [of y] by (simp add: divide_right_mono)
    then have "round_half_even (x / ulp y) \<le> round_half_even (y / ulp y)"
      by (rule round_half_even_mono)
    then show ?thesis
      using assms y ulp_pos [of y] by (simp add: fl_def u mult_right_mono)
  next
    case False
    with le have lt: "bexp x + 1 \<le> bexp y" by simp
    then have "- 1022 \<le> ilog2 y" using y by (simp add: bexp_def)
    from fl_ge_binade_bottom [OF y this] have "2 powi (bexp y) \<le> fl y" .
    moreover have "(2::rat) powi (bexp x + 1) \<le> 2 powi (bexp y)"
      using lt by (simp only: pow2_le_iff)
    moreover note fl_le_binade_top [OF assms(1)]
    ultimately show ?thesis by linarith
  qed
qed

lemma fl_zero: "fl 0 = 0"
  by (simp add: fl_def)

lemma fl_mono:
  assumes "x \<le> y"
  shows "fl x \<le> fl y"
proof -
  consider "0 < x" | "x \<le> 0" "0 \<le> y" | "y < 0" by linarith
  then show ?thesis
  proof cases
    case 1
    then show ?thesis using assms by (rule fl_mono_pos)
  next
    case 2
    have "fl x \<le> 0" using fl_nonneg [of "- x"] 2 by (simp add: fl_minus)
    moreover have "0 \<le> fl y" using 2 by (simp add: fl_nonneg)
    ultimately show ?thesis by simp
  next
    case 3
    then have "fl (- y) \<le> fl (- x)" using assms by (intro fl_mono_pos) simp_all
    then show ?thesis by (simp add: fl_minus)
  qed
qed

text \<open>A number with a 53-bit significand and an exponent in range is its own rounding.\<close>

lemma fl_representable:
  assumes m: "\<bar>m\<bar> < 2 ^ 53" and e: "- 1074 \<le> e"
  shows "fl (of_int m * 2 powi e) = of_int m * 2 powi e"
proof (cases "m = 0")
  case True
  then show ?thesis by (simp add: fl_def)
next
  case False
  define x :: rat where "x = of_int m * 2 powi e"
  define k where "k = e - (bexp x - 52)"
  have x0: "x \<noteq> 0" using False by (simp add: x_def)
  have ax: "\<bar>x\<bar> = of_int \<bar>m\<bar> * 2 powi e" by (simp add: x_def abs_mult)
  have "2 powi (ilog2 \<bar>x\<bar>) \<le> \<bar>x\<bar>" using x0 by (intro ilog2_bounds) simp
  also have "\<bar>x\<bar> < 2 powi 53 * 2 powi e"
  proof -
    have "rat_of_int \<bar>m\<bar> < rat_of_int (2 ^ nat 53)" using m by (simp only: of_int_less_iff) simp
    also have "rat_of_int (2 ^ nat 53) = 2 powi 53" by (rule pow2_nat [symmetric]) simp
    finally show ?thesis unfolding ax by (simp only: mult_less_cancel_right_pos zero_less_power_int zero_less_numeral)
  qed
  also have "\<dots> = 2 powi (53 + e)" by (rule pow2_add)
  finally have "ilog2 \<bar>x\<bar> < 53 + e" by (simp only: pow2_less_iff)
  with e have k0: "0 \<le> k" by (simp add: k_def bexp_def)
  have "x / ulp x = of_int m * (2 powi e / 2 powi (bexp x - 52))"
    by (simp add: x_def ulp_bexp)
  also have "\<dots> = of_int m * 2 powi k" by (simp only: pow2_diff k_def)
  also have "\<dots> = rat_of_int (m * 2 ^ nat k)" by (simp add: pow2_nat [OF k0])
  finally have "round_half_even (x / ulp x) = m * 2 ^ nat k"
    by (simp only: round_half_even_of_int)
  then have "fl x = rat_of_int (m * 2 ^ nat k) * ulp x"
    using x0 by (simp add: fl_def)
  also have "\<dots> = of_int m * (2 powi k * 2 powi (bexp x - 52))"
    by (simp add: pow2_nat [OF k0] ulp_bexp)
  also have "\<dots> = of_int m * 2 powi e" by (simp only: pow2_add k_def) simp
  finally show ?thesis by (simp only: x_def)
qed

section \<open>Properties of the condense level and the slot zoom\<close>

lemma normalizeCondenseLevel_NaN: "normalizeCondenseLevel NaN = NaN"
  by (simp add: normalizeCondenseLevel_def)

text \<open>
  C6, as stated: for every number the normalized value lies in \<open>[0, 220]\<close>.  The input
  \<open>NaN\<close> refutes it: both \<open>Math.min\<close> and \<open>Math.max\<close> hand \<open>NaN\<close> through, and
  \<open>NaN\<close> is in no interval.
\<close>

theorem normalizeCondenseLevel_range_counterexample:
  "\<not> in_condense_range (normalizeCondenseLevel NaN)"
  by (simp add: normalizeCondenseLevel_NaN in_condense_range_def)

text \<open>
  C6, amended: for every number other than \<open>NaN\<close> (the infinities included) the
  normalized value lies in \<open>[0, 220]\<close>, a value already in \<open>[0, 220]\<close> is returned
  unchanged, and normalizing twice is the same as normalizing once.
\<close>

theorem normalizeCondenseLevel_clamps:
  "v \<noteq> NaN \<Longrightarrow>
     in_condense_range (normalizeCondenseLevel v)
     \<and> (in_condense_range v \<longrightarrow> normalizeCondenseLevel v = v)
     \<and> normalizeCondenseLevel (normalizeCondenseLevel v) = normalizeCondenseLevel v"
  by (cases v)
     (auto simp: normalizeCondenseLevel_def MAX_CONDENSE_LEVEL_def in_condense_range_def)

theorem normalizeCondenseLevel_clamps_witness:
  "Fin 100 \<noteq> NaN \<and> in_condense_range (Fin 100)
   \<and> in_condense_range (normalizeCondenseLevel (Fin 100))
   \<and> normalizeCondenseLevel (Fin 100) = Fin 100
   \<and> normalizeCondenseLevel (normalizeCondenseLevel (Fin 100)) = normalizeCondenseLevel (Fin 100)"
proof -
  have r: "in_condense_range (Fin 100)"
    by (simp add: in_condense_range_def MAX_CONDENSE_LEVEL_def)
  from normalizeCondenseLevel_clamps [of "Fin 100"] r show ?thesis by simp
qed

text \<open>The constants of the zoom computation as binary64 values.\<close>

lemma MIN_SLOT_ZOOM_value: "MIN_SLOT_ZOOM = 7205759403792794 / 2 ^ 56"
  unfolding MIN_SLOT_ZOOM_def by code_simp

lemma MAX_SLOT_ZOOM_value: "MAX_SLOT_ZOOM = 1 / 2"
  unfolding MAX_SLOT_ZOOM_def by code_simp

lemma slot_zoom_range_value: "slot_zoom_range = 7205759403792794 / 2 ^ 54"
  unfolding slot_zoom_range_def MIN_SLOT_ZOOM_def MAX_SLOT_ZOOM_def by code_simp

lemma calculateSlotZoom_0: "calculateSlotZoom (Fin 0) = Fin MAX_SLOT_ZOOM"
proof -
  have "fl MAX_SLOT_ZOOM = MAX_SLOT_ZOOM"
    unfolding MAX_SLOT_ZOOM_def by code_simp
  then show ?thesis
    by (simp add: calculateSlotZoom_def MAX_CONDENSE_LEVEL_def fl_zero)
qed

lemma calculateSlotZoom_220:
  "calculateSlotZoom (Fin MAX_CONDENSE_LEVEL) = Fin (MIN_SLOT_ZOOM - 1 / 2 ^ 55)"
proof -
  have "fl (MAX_SLOT_ZOOM - fl (fl (220 / 220) * slot_zoom_range)) = MIN_SLOT_ZOOM - 1 / 2 ^ 55"
    unfolding MIN_SLOT_ZOOM_def MAX_SLOT_ZOOM_def slot_zoom_range_def by code_simp
  then show ?thesis
    by (simp add: calculateSlotZoom_def MAX_CONDENSE_LEVEL_def)
qed

lemma calculateSlotZoom_finite:
  assumes "0 \<le> a" "a \<le> 220"
  shows "calculateSlotZoom (Fin a)
           = Fin (fl (MAX_SLOT_ZOOM - fl (fl (a / 220) * slot_zoom_range)))"
  using assms by (simp add: calculateSlotZoom_def MAX_CONDENSE_LEVEL_def)

lemma calculateSlotZoom_antimono:
  assumes "0 \<le> a" "a \<le> b" "b \<le> 220"
  shows "js_le (calculateSlotZoom (Fin b)) (calculateSlotZoom (Fin a))"
proof -
  have r: "0 \<le> slot_zoom_range" by (simp add: slot_zoom_range_value)
  have "a / 220 \<le> b / 220" using assms by (simp add: divide_right_mono)
  then have "fl (a / 220) \<le> fl (b / 220)" by (rule fl_mono)
  then have "fl (a / 220) * slot_zoom_range \<le> fl (b / 220) * slot_zoom_range"
    using r by (rule mult_right_mono)
  then have "fl (fl (a / 220) * slot_zoom_range) \<le> fl (fl (b / 220) * slot_zoom_range)"
    by (rule fl_mono)
  then have "MAX_SLOT_ZOOM - fl (fl (b / 220) * slot_zoom_range)
               \<le> MAX_SLOT_ZOOM - fl (fl (a / 220) * slot_zoom_range)"
    by simp
  then have "fl (MAX_SLOT_ZOOM - fl (fl (b / 220) * slot_zoom_range))
               \<le> fl (MAX_SLOT_ZOOM - fl (fl (a / 220) * slot_zoom_range))"
    by (rule fl_mono)
  moreover have "0 \<le> b" "a \<le> 220" using assms by simp_all
  ultimately show ?thesis using assms by (simp add: calculateSlotZoom_finite)
qed

text \<open>
  C7, as stated: \<open>calculateSlotZoom(220)\<close> equals the minimum zoom factor \<open>0.1\<close>.  In
  binary64 the range \<open>0.5 - 0.1\<close> rounds to the value of \<open>0.4\<close>, and \<open>0.5 - 0.4\<close> is
  \<open>0.09999999999999998\<close>, two units in the last place below the value of \<open>0.1\<close>.
\<close>

theorem calculateSlotZoom_220_counterexample:
  "calculateSlotZoom (Fin MAX_CONDENSE_LEVEL) \<noteq> Fin MIN_SLOT_ZOOM"
  by (simp add: calculateSlotZoom_220)

text \<open>
  C7, amended: \<open>calculateSlotZoom(0)\<close> is the maximum zoom factor \<open>0.5\<close>;
  \<open>calculateSlotZoom(220)\<close> is the minimum zoom factor less \<open>2\<^sup>-\<^sup>5\<^sup>5\<close>; and on
  \<open>[0, 220]\<close> the zoom does not increase with the level.
\<close>

theorem calculateSlotZoom_endpoints_antimono:
  "calculateSlotZoom (Fin 0) = Fin MAX_SLOT_ZOOM
   \<and> MAX_SLOT_ZOOM = 1 / 2
   \<and> calculateSlotZoom (Fin MAX_CONDENSE_LEVEL) = Fin (MIN_SLOT_ZOOM - 1 / 2 ^ 55)
   \<and> (\<forall>a b. 0 \<le> a \<and> a \<le> b \<and> b \<le> 220 \<longrightarrow>
          js_le (calculateSlotZoom (Fin b)) (calculateSlotZoom (Fin a)))"
  using calculateSlotZoom_0 MAX_SLOT_ZOOM_value calculateSlotZoom_220 calculateSlotZoom_antimono
  by blast

theorem calculateSlotZoom_endpoints_antimono_witness:
  "(0::rat) \<le> 55 \<and> (55::rat) \<le> 110 \<and> (110::rat) \<le> 220
   \<and> js_le (calculateSlotZoom (Fin 110)) (calculateSlotZoom (Fin 55))
   \<and> calculateSlotZoom (Fin 0) = Fin (1 / 2)"
  using calculateSlotZoom_endpoints_antimono by simp

section \<open>Properties of the style-map parser\<close>

lemma split_on_not_Nil: "split_on P s \<noteq> []"
  by (induction s) (auto simp: Let_def)

lemma object_step_override:
  "object_step e m = (case object_override e of None \<Rightarrow> m | Some (k, x) \<Rightarrow> m(k \<mapsto> x))"
  by (cases "(e, m)" rule: object_step.cases) auto

lemma string_step_override:
  "string_step seg m = (case string_override seg of None \<Rightarrow> m | Some (k, x) \<Rightarrow> m(k \<mapsto> x))"
proof -
  obtain p ps where ps: "split_on (\<lambda>c. c = CHR '':'') seg = p # ps"
    using split_on_not_Nil by (cases "split_on (\<lambda>c. c = CHR '':'') seg") auto
  show ?thesis
    by (cases ps) (auto simp: string_step_def string_override_def ps Let_def)
qed

lemma object_override_nonempty: "object_override e = Some (k, x) \<Longrightarrow> x \<noteq> []"
  by (cases e rule: object_override.cases) (auto split: if_splits)

lemma string_override_nonempty: "string_override e = Some (k, x) \<Longrightarrow> x \<noteq> []"
  by (auto simp: string_override_def split: list.splits if_splits)

lemma supplied_overrides_nonempty: "(k, x) \<in> set (supplied_overrides v) \<Longrightarrow> x \<noteq> []"
  by (auto simp: supplied_overrides_def List.map_filter_def
           dest: object_override_nonempty string_override_nonempty
           split: if_splits js_value.splits)

text \<open>A loop that only ever stores overrides keeps every key it started with.\<close>

lemma fold_override_dom:
  assumes "\<And>e m. step e m = (case ov e of None \<Rightarrow> m | Some (k, x) \<Rightarrow> m(k \<mapsto> x))"
  shows "dom m \<subseteq> dom (fold step es m)"
proof (induction es arbitrary: m)
  case Nil
  show ?case by simp
next
  case (Cons e es)
  have "dom m \<subseteq> dom (step e m)"
    by (auto simp: assms split: option.splits)
  also have "\<dots> \<subseteq> dom (fold step es (step e m))" by (rule Cons.IH)
  finally show ?case by simp
qed

text \<open>After such a loop a key holds its old value or one of the overrides stored for it.\<close>

lemma fold_override_lookup:
  assumes "\<And>e m. step e m = (case ov e of None \<Rightarrow> m | Some (k, x) \<Rightarrow> m(k \<mapsto> x))"
  shows "fold step es m k = m k
         \<or> (\<exists>x. (k, x) \<in> set (List.map_filter ov es) \<and> fold step es m k = Some x)"
proof (induction es arbitrary: m)
  case Nil
  show ?case by simp
next
  case (Cons e es)
  from Cons.IH [of "step e m"] show ?case
    by (cases "ov e") (auto simp: assms List.map_filter_simps split: if_splits)
qed

lemma parseStyleMapping_dom: "dom defaults \<subseteq> dom (parseStyleMapping v defaults)"
  by (cases v)
     (simp_all add: parseStyleMapping_def Let_def
        fold_override_dom [of object_step, OF object_step_override]
        fold_override_dom [of string_step, OF string_step_override])

lemma parseStyleMapping_lookup:
  "parseStyleMapping v defaults k = defaults k
   \<or> (\<exists>x. (k, x) \<in> set (supplied_overrides v) \<and> parseStyleMapping v defaults k = Some x)"
  by (cases v)
     (simp_all add: parseStyleMapping_def supplied_overrides_def Let_def
        fold_override_lookup [of object_step, OF object_step_override]
        fold_override_lookup [of string_step, OF string_step_override])

lemma parseStyleMapping_example:
  "parseStyleMapping (Str ''low:#111111; high:#222222'') d
     = d(''low'' \<mapsto> ''#111111'', ''high'' \<mapsto> ''#222222'')"
  by (simp add: parseStyleMapping_def is_list_separator_def trim_def trimStart_def
        trimEnd_def is_space_def string_step_def toLowerCase_def lower_char_def Let_def)

text \<open>
  C5: whatever the input (empty, object-shaped, string-shaped or anything else), the
  parsed map contains every key of the supplied defaults; a key is bound to something else
  than its default only when the input supplies a non-empty override for it, and then it is
  bound to such an override; the string \<open>low:#111111; high:#222222\<close> rebinds \<open>low\<close> and
  \<open>high\<close> and nothing else.
\<close>

theorem parseStyleMapping_merges_over_defaults:
  "dom defaults \<subseteq> dom (parseStyleMapping v defaults)
   \<and> (\<forall>k. parseStyleMapping v defaults k \<noteq> defaults k \<longrightarrow>
          (\<exists>x. x \<noteq> [] \<and> (k, x) \<in> set (supplied_overrides v)
               \<and> parseStyleMapping v defaults k = Some x))
   \<and> parseStyleMapping (Str ''low:#111111; high:#222222'') defaults
        = defaults(''low'' \<mapsto> ''#111111'', ''high'' \<mapsto> ''#222222'')"
  using parseStyleMapping_dom [of defaults v] parseStyleMapping_lookup [of v defaults]
        supplied_overrides_nonempty [of _ _ v] parseStyleMapping_example [of defaults]
  by blast

theorem parseStyleMapping_merges_over_defaults_witness:
  "parseStyleMapping (Str ''low:#111111; high:#222222'') DEFAULT_PRIORITY_COLOR_MAP ''low''
     \<noteq> DEFAULT_PRIORITY_COLOR_MAP ''low''
   \<and> (''low'', ''#111111'') \<in> set (supplied_overrides (Str ''low:#111111; high:#222222''))
   \<and> parseStyleMapping (Str ''low:#111111; high:#222222'') DEFAULT_PRIORITY_COLOR_MAP ''low''
       = Some ''#111111''
   \<and> parseStyleMapping (Str ''low:#111111; high:#222222'') DEFAULT_PRIORITY_COLOR_MAP ''normal''
       = Some ''#60a5fa''
   \<and> parseStyleMapping (Str ''low:#111111; high:#222222'') DEFAULT_PRIORITY_COLOR_MAP ''medium''
       = Some ''#facc15''
   \<and> dom DEFAULT_PRIORITY_COLOR_MAP
       \<subseteq> dom (parseStyleMapping (Str ''low:#111111; high:#222222'') DEFAULT_PRIORITY_COLOR_MAP)"
proof -
  note t = parseStyleMapping_merges_over_defaults
             [of DEFAULT_PRIORITY_COLOR_MAP "Str ''low:#111111; high:#222222''"]
  have ov: "supplied_overrides (Str ''low:#111111; high:#222222'')
              = [(''low'', ''#111111''), (''high'', ''#222222'')]"
    by (simp add: supplied_overrides_def is_list_separator_def trim_def trimStart_def
          trimEnd_def is_space_def string_override_def toLowerCase_def lower_char_def)
  from t ov show ?thesis
    by (simp add: DEFAULT_PRIORITY_COLOR_MAP_def)
qed

section \<open>Properties of the calendar arithmetic\<close>

lemma a1: "((y::int) - 1968) mod 4 = y mod 4"
proof -
  have "y - 1968 = y + 4 * (- 492)" by simp
  then show ?thesis by (simp only: mod_mult_self2)
qed

lemma a2: "((y::int) - 1900) mod 100 = y mod 100"
proof -
  have "y - 1900 = y + 100 * (- 19)" by simp
  then show ?thesis by (simp only: mod_mult_self2)
qed

lemma a3: "((y::int) - 1600) mod 400 = y mod 400"
proof -
  have "y - 1600 = y + 400 * (- 4)" by simp
  then show ?thesis by (simp only: mod_mult_self2)
qed

lemma m100: "(y::int) mod 100 = 0 \<Longrightarrow> y mod 4 = 0"
proof -
  assume "y mod 100 = 0"
  then have "100 dvd y" by (simp only: dvd_eq_mod_eq_0)
  moreover have "(4::int) dvd 100" by simp
  ultimately have "4 dvd y" by (metis dvd_trans)
  then show ?thesis by (simp only: dvd_eq_mod_eq_0)
qed

lemma m400: "(y::int) mod 400 = 0 \<Longrightarrow> y mod 100 = 0"
proof -
  assume "y mod 400 = 0"
  then have "400 dvd y" by (simp only: dvd_eq_mod_eq_0)
  moreover have "(100::int) dvd 400" by simp
  ultimately have "100 dvd y" by (metis dvd_trans)
  then show ?thesis by (simp only: dvd_eq_mod_eq_0)
qed


lemma div_bounds: "0 < n \<Longrightarrow> n * (x div n) \<le> x \<and> x < n * (x div n) + (n::int)"
  using pos_mod_bound [of n x] pos_mod_sign [of n x] mult_div_mod_eq [of n x] by linarith

lemma div_succ:
  assumes "0 < (n::int)"
  shows "(x + 1) div n = x div n + (if (x + 1) mod n = 0 then 1 else 0)"
proof -
  define q r where "q = x div n" and "r = x mod n"
  have x: "x = n * q + r" and r: "0 \<le> r" "r < n"
    using assms by (simp_all add: q_def r_def)
  show ?thesis
  proof (cases "r + 1 = n")
    case True
    then have e: "x + 1 = n * (q + 1) + 0" using x by (simp add: algebra_simps)
    have "(x + 1) div n = q + 1" by (rule int_div_pos_eq [OF e]) (use assms in simp_all)
    moreover have "(x + 1) mod n = 0" by (rule int_mod_pos_eq [OF e]) (use assms in simp_all)
    ultimately show ?thesis by (simp add: q_def)
  next
    case False
    then have r1: "0 \<le> r + 1" "r + 1 < n" using r by simp_all
    have e: "x + 1 = n * q + (r + 1)" using x by simp
    have "(x + 1) div n = q" by (rule int_div_pos_eq [OF e r1])
    moreover have "(x + 1) mod n = r + 1" by (rule int_mod_pos_eq [OF e r1])
    ultimately show ?thesis using r by (simp add: q_def)
  qed
qed

lemma l4: "((y::int) - 1968) div 4 = (y - 1969) div 4 + (if y mod 4 = 0 then 1 else 0)"
  using div_succ [of 4 "y - 1969"] a1 [of y] by simp

lemma l100: "((y::int) - 1900) div 100 = (y - 1901) div 100 + (if y mod 100 = 0 then 1 else 0)"
  using div_succ [of 100 "y - 1901"] a2 [of y] by simp

lemma l400: "((y::int) - 1600) div 400 = (y - 1601) div 400 + (if y mod 400 = 0 then 1 else 0)"
  using div_succ [of 400 "y - 1601"] a3 [of y] by simp

lemma DayFromYear_step: "DayFromYear (y + 1) = DayFromYear y + 365 + InLeapYear y"
proof -
  have "DayFromYear (y + 1)
        = 365 * (y - 1969) + (y - 1968) div 4 - (y - 1900) div 100 + (y - 1600) div 400"
    by (simp add: DayFromYear_def)
  also have "\<dots> = 365 * (y - 1969) + ((y - 1969) div 4 + (if y mod 4 = 0 then 1 else 0))
                 - ((y - 1901) div 100 + (if y mod 100 = 0 then 1 else 0))
                 + ((y - 1601) div 400 + (if y mod 400 = 0 then 1 else 0))"
    by (simp only: l4 l100 l400)
  also have "\<dots> = DayFromYear y + 365 + InLeapYear y"
    using m100 [of y] m400 [of y] by (simp add: DayFromYear_def InLeapYear_def)
  finally show ?thesis .
qed

lemma year_lower: "DayFromYear (1969 + (400 * d) div 146097) \<le> d"
proof -
  define k where "k = (400 * d) div 146097"
  define a b c where "a = k div 4" and "b = (k + 68) div 100" and "c = (k + 368) div 400"
  have e: "DayFromYear (1969 + k) = 365 * k - 365 + a - b + c"
    by (simp add: DayFromYear_def add.commute a_def b_def c_def)
  have "146097 * k \<le> 400 * d \<and> 400 * d < 146097 * k + 146097"
    unfolding k_def by (rule div_bounds) simp
  moreover have "4 * a \<le> k \<and> k < 4 * a + 4"
    unfolding a_def by (rule div_bounds) simp
  moreover have "100 * b \<le> k + 68 \<and> k + 68 < 100 * b + 100"
    unfolding b_def by (rule div_bounds) simp
  moreover have "400 * c \<le> k + 368 \<and> k + 368 < 400 * c + 400"
    unfolding c_def by (rule div_bounds) simp
  ultimately have "365 * k - 365 + a - b + c \<le> d" by linarith
  then show ?thesis unfolding k_def [symmetric] e .
qed

lemma year_upper: "d < DayFromYear (1972 + (400 * d) div 146097)"
proof -
  define k where "k = (400 * d) div 146097"
  define a b c where "a = (k + 3) div 4" and "b = (k + 71) div 100" and "c = (k + 371) div 400"
  have e: "DayFromYear (1972 + k) = 365 * k + 730 + a - b + c"
    by (simp add: DayFromYear_def add.commute a_def b_def c_def)
  have "146097 * k \<le> 400 * d \<and> 400 * d < 146097 * k + 146097"
    unfolding k_def by (rule div_bounds) simp
  moreover have "4 * a \<le> k + 3 \<and> k + 3 < 4 * a + 4"
    unfolding a_def by (rule div_bounds) simp
  moreover have "100 * b \<le> k + 71 \<and> k + 71 < 100 * b + 100"
    unfolding b_def by (rule div_bounds) simp
  moreover have "400 * c \<le> k + 371 \<and> k + 371 < 400 * c + 400"
    unfolding c_def by (rule div_bounds) simp
  ultimately have "d < 365 * k + 730 + a - b + c" by linarith
  then show ?thesis unfolding k_def [symmetric] e .
qed

lemma YearFromDay_correct:
  "DayFromYear (YearFromDay d) \<le> d \<and> d < DayFromYear (YearFromDay d + 1)"
proof -
  define y where "y = 1970 + (400 * d) div 146097"
  have lo: "DayFromYear (y - 1) \<le> d" using year_lower [of d] by (simp add: y_def)
  have hi: "d < DayFromYear (y + 1 + 1)" using year_upper [of d] by (simp add: y_def)
  show ?thesis
    unfolding YearFromDay_def y_def [symmetric] Let_def using lo hi by auto
qed

lemma InLeapYear_range: "InLeapYear y = 0 \<or> InLeapYear y = 1"
  by (simp add: InLeapYear_def)

lemma DayWithinYear_range:
  "0 \<le> DayWithinYear d \<and> DayWithinYear d < 365 + InLeapYear (YearFromDay d)"
  using YearFromDay_correct [of d] DayFromYear_step [of "YearFromDay d"]
  by (simp add: DayWithinYear_def)

lemma MonthFromDay_range: "0 \<le> MonthFromDay d \<and> MonthFromDay d \<le> 11"
  by (simp add: MonthFromDay_def Let_def)

lemma DateFromDay_range: "1 \<le> DateFromDay d \<and> DateFromDay d \<le> 31"
proof -
  define w l where "w = DayWithinYear d" and "l = InLeapYear (YearFromDay d)"
  have w: "0 \<le> w" "w < 365 + l" and l: "l = 0 \<or> l = 1"
    using DayWithinYear_range [of d] InLeapYear_range [of "YearFromDay d"]
    by (simp_all add: w_def l_def)
  show ?thesis
    unfolding DateFromDay_def MonthFromDay_def Let_def w_def [symmetric] l_def [symmetric]
    using w l by (simp split: if_splits) linarith
qed

lemma getMonth_range: "0 \<le> getMonth tz d \<and> getMonth tz d \<le> 11"
  by (simp add: getMonth_def MonthFromDay_range)

lemma getDate_range: "1 \<le> getDate tz d \<and> getDate tz d \<le> 31"
  by (simp add: getDate_def DateFromDay_range)

lemma getHours_range: "0 \<le> getHours tz d \<and> getHours tz d \<le> 23"
  by (simp add: getHours_def)

lemma getMinutes_range: "0 \<le> getMinutes tz d \<and> getMinutes tz d \<le> 59"
  by (simp add: getMinutes_def)








lemma setHours_not_later: "getTime (setHours_0_0_0_0 tz d) \<le> getTime d"
proof -
  have "Day (LocalTime tz d) * msPerDay \<le> LocalTime tz d"
    using div_bounds [of msPerDay "LocalTime tz d"]
    by (simp add: Day_def msPerDay_def mult.commute)
  then show ?thesis by (simp add: setHours_0_0_0_0_def LocalTime_def)
qed

section \<open>Properties of the date format\<close>

lemma digit_char_0: "digit_char 0 = CHR ''0''"
  unfolding digit_char_def by code_simp

lemma decimal_below_10: "n < 10 \<Longrightarrow> decimal n = [digit_char n]"
  by simp

lemma decimal_from_10: "10 \<le> n \<Longrightarrow> decimal n = decimal (n div 10) @ [digit_char (n mod 10)]"
  by (subst decimal.simps) simp

lemma pad_two_digits:
  assumes "0 \<le> n" "n < 100"
  shows "padStart 2 (CHR ''0'') (String_int n) = two_digits n"
proof (cases "n < 10")
  case True
  then have "nat n < 10" "nat n div 10 = 0" "nat n mod 10 = nat n" using assms by simp_all
  then show ?thesis
    using assms by (simp add: padStart_def String_int_def two_digits_def digit_char_0)
next
  case False
  then have ge: "10 \<le> nat n" using assms by simp
  have "nat n div 10 < 10" using assms by simp
  then have "decimal (nat n) = [digit_char (nat n div 10), digit_char (nat n mod 10)]"
    by (simp add: decimal_from_10 [OF ge] decimal_below_10 del: decimal.simps)
  then show ?thesis
    using assms by (simp add: padStart_def String_int_def two_digits_def del: decimal.simps)
qed

text \<open>
  The formatted date spelled out: the year in decimal, then month, day, hour and minute
  with two digits each.
\<close>

lemma formatDateTimeForFrontmatter_shape:
  "formatDateTimeForFrontmatter tz d =
     String_int (getFullYear tz d) @ ''-'' @ two_digits (getMonth tz d + 1) @ ''-''
     @ two_digits (getDate tz d) @ '' '' @ two_digits (getHours tz d) @ '':''
     @ two_digits (getMinutes tz d)"
  using getMonth_range [of tz d] getDate_range [of tz d] getHours_range [of tz d]
        getMinutes_range [of tz d]
  by (simp add: formatDateTimeForFrontmatter_def Let_def pad_two_digits del: decimal.simps)

lemma length_decimal_4: "1000 \<le> n \<Longrightarrow> n \<le> 9999 \<Longrightarrow> length (decimal n) = 4"
proof -
  assume a: "1000 \<le> n" "n \<le> 9999"
  have 1: "decimal n = decimal (n div 10) @ [digit_char (n mod 10)]"
    using a by (intro decimal_from_10) simp
  have 2: "decimal (n div 10) = decimal (n div 10 div 10) @ [digit_char (n div 10 mod 10)]"
    using a by (intro decimal_from_10) simp
  have 3: "decimal (n div 10 div 10)
             = decimal (n div 10 div 10 div 10) @ [digit_char (n div 10 div 10 mod 10)]"
    using a by (intro decimal_from_10) simp
  have 4: "decimal (n div 10 div 10 div 10) = [digit_char (n div 10 div 10 div 10)]"
    using a by (intro decimal_below_10) simp
  show ?thesis unfolding 1 2 3 4 by simp
qed

lemma formatDateTimeForFrontmatter_length:
  assumes "1000 \<le> getFullYear tz d" "getFullYear tz d \<le> 9999"
  shows "length (formatDateTimeForFrontmatter tz d) = 16"
proof -
  have "length (String_int (getFullYear tz d)) = 4"
    using assms by (simp add: String_int_def length_decimal_4 del: decimal.simps)
  then show ?thesis
    by (simp add: formatDateTimeForFrontmatter_shape two_digits_def)
qed


section \<open>Properties of the extraction pass\<close>

text \<open>
  A start date resolves exactly when the lookup returns a \<open>DateValue\<close> that carries a
  date: a lookup that throws, returns \<open>null\<close>, returns another kind of value or a
  \<open>DateValue\<close> without a date does not resolve.
\<close>

lemma extractDate_Some_iff:
  "extractDate e p = Some d \<longleftrightarrow> getValue e p = Returns (Some (DateValue (Some d)))"
  by (auto simp: extractDate_def split: outcome.splits option.splits Value.splits)

lemma extractDate_failures:
  "getValue e p = Throws \<Longrightarrow> extractDate e p = None"
  "getValue e p = Returns None \<Longrightarrow> extractDate e p = None"
  "getValue e p = Returns (Some (StringValue s)) \<Longrightarrow> extractDate e p = None"
  "getValue e p = Returns (Some OtherValue) \<Longrightarrow> extractDate e p = None"
  "getValue e p = Returns (Some (DateValue None)) \<Longrightarrow> extractDate e p = None"
  by (simp_all add: extractDate_def)

text \<open>
  As long as no title lookup throws, the loop runs to its end and appends one entry for
  each record whose start date resolves, in the order of the result set, whatever the other
  records do.
\<close>

lemma extract_entries_complete:
  assumes "\<forall>e \<in> set es. resolves sp e \<longrightarrow> title_returns tp e"
  shows "\<exists>r. extract_entries sp ep tp es acc = Rendered (acc @ r)
             \<and> map entry r = filter (resolves sp) es
             \<and> (\<forall>c \<in> set r. extractDate (entry c) sp = Some (startDate c))"
  using assms
proof (induction es arbitrary: acc)
  case Nil
  then show ?case by simp
next
  case (Cons e es)
  then have ih: "\<And>acc'. \<exists>r. extract_entries sp ep tp es acc' = Rendered (acc' @ r)
             \<and> map entry r = filter (resolves sp) es
             \<and> (\<forall>c \<in> set r. extractDate (entry c) sp = Some (startDate c))"
    by simp
  show ?case
  proof (cases "extractDate e sp")
    case None
    then have "\<not> resolves sp e" by (simp add: resolves_def)
    with ih [of acc] None show ?thesis by simp
  next
    case (Some start)
    then have res: "resolves sp e" by (simp add: resolves_def)
    with Cons.prems have tr: "title_returns tp e" by simp
    define en where "en = (case ep of None \<Rightarrow> None | Some p \<Rightarrow> extractDate e p)"
    show ?thesis
    proof (cases tp)
      case None
      define c where "c = \<lparr>entry = e, startDate = start, endDate = en, title_value = None\<rparr>"
      from ih [of "acc @ [c]"] obtain r where
        r: "extract_entries sp ep tp es (acc @ [c]) = Rendered (acc @ [c] @ r)"
           "map entry r = filter (resolves sp) es"
           "\<forall>c \<in> set r. extractDate (entry c) sp = Some (startDate c)"
        by auto
      have "extract_entries sp ep tp (e # es) acc = Rendered (acc @ (c # r))"
        using r(1) Some None by (simp add: c_def en_def)
      moreover have "map entry (c # r) = filter (resolves sp) (e # es)"
        using r(2) res by (simp add: c_def)
      moreover have "\<forall>c' \<in> set (c # r). extractDate (entry c') sp = Some (startDate c')"
        using r(3) Some by (simp add: c_def)
      ultimately show ?thesis by blast
    next
      case (Some p)
      with tr obtain t where t: "getValue e p = Returns t"
        by (cases "getValue e p") (auto simp: title_returns_def)
      define c where "c = \<lparr>entry = e, startDate = start, endDate = en, title_value = Some t\<rparr>"
      from ih [of "acc @ [c]"] obtain r where
        r: "extract_entries sp ep tp es (acc @ [c]) = Rendered (acc @ [c] @ r)"
           "map entry r = filter (resolves sp) es"
           "\<forall>c \<in> set r. extractDate (entry c) sp = Some (startDate c)"
        by auto
      have "extract_entries sp ep tp (e # es) acc = Rendered (acc @ (c # r))"
        using r(1) \<open>extractDate e sp = Some start\<close> Some t by (simp add: c_def en_def)
      moreover have "map entry (c # r) = filter (resolves sp) (e # es)"
        using r(2) res by (simp add: c_def)
      moreover have "\<forall>c' \<in> set (c # r). extractDate (entry c') sp = Some (startDate c')"
        using r(3) \<open>extractDate e sp = Some start\<close> by (simp add: c_def)
      ultimately show ?thesis by blast
    qed
  qed
qed

lemma updateCalendar_complete:
  assumes "data view = Some rs" "startDateProp view = Some sp"
    and "\<forall>e \<in> set rs. resolves sp e \<longrightarrow> title_returns (titleProp view) e"
  shows "\<exists>r. updateCalendar view = Rendered r
             \<and> map entry r = filter (resolves sp) rs
             \<and> (\<forall>c \<in> set r. extractDate (entry c) sp = Some (startDate c))"
  using extract_entries_complete [OF assms(3), of "endDateProp view" "[]"] assms(1,2)
  by (simp add: updateCalendar_def)

text \<open>
  C1: the pass is to produce entries exactly for the records whose start date resolves.
  On the result set below it does not: the start date of the first record resolves, the
  bare title lookup on it throws, and the exception leaves \<open>updateCalendar\<close> before
  anything is rendered; neither that record nor the one after it gets an entry.
\<close>

theorem updateCalendar_title_lookup_aborts:
  "data throwing_title_view = Some [throwing_title_record, example_record]
   \<and> startDateProp throwing_title_view = Some ''note.start''
   \<and> filter (resolves ''note.start'') [throwing_title_record, example_record]
       = [throwing_title_record, example_record]
   \<and> updateCalendar throwing_title_view = Aborted []"
  by (simp add: throwing_title_view_def throwing_title_record_def example_record_def
        updateCalendar_def resolves_def extractDate_def)

section \<open>Properties of the duration computation\<close>

lemma fl_of_int:
  assumes "\<bar>m\<bar> < 2 ^ 53"
  shows "fl (of_int m) = of_int m"
  using fl_representable [OF assms, of 0] by simp

lemma Math_round_unique:
  assumes "of_int n - 1 / 2 \<le> x" "x < of_int n + 1 / 2"
  shows "Math_round x = n"
  unfolding Math_round_def using assms by (intro floor_unique) simp_all

text \<open>
  For two dates at most \<open>2\<^sup>5\<^sup>2\<close> milliseconds (some 142000 years) apart, the rounding
  of the subtraction and of the division does not show: the duration is the exact
  difference in minutes, rounded to the nearest integer.
\<close>

lemma durationMinutes_exact:
  assumes "\<bar>getTime e - getTime s\<bar> \<le> 2 ^ 52"
  shows "durationMinutes s e = whole_minutes_between s e"
proof -
  define d where "d = getTime e - getTime s"
  define n where "n = (d + 30000) div 60000"
  define x :: rat where "x = of_int d / 60000"
  have d: "- 4503599627370496 \<le> d" "d \<le> 4503599627370496"
    using assms by (simp_all add: d_def abs_le_iff)
  have n: "60000 * n \<le> d + 30000" "d + 30000 < 60000 * n + 60000"
    using div_bounds [of 60000 "d + 30000"] by (simp_all add: n_def)
  have nb: "- 75059993790 \<le> n" "n \<le> 75059993790" using d n by linarith+
  have "fl (of_int (getTime e) - of_int (getTime s)) = fl (of_int d)"
    by (simp add: d_def)
  also have "\<dots> = of_int d" using d by (intro fl_of_int) (simp add: abs_less_iff)
  finally have dm: "durationMinutes s e = Math_round (fl x)"
    by (simp add: durationMinutes_def x_def)
  have lo: "of_int n - 1 / 2 \<le> fl x"
  proof -
    have "rat_of_int (60000 * n - 30000) \<le> rat_of_int d"
      using n(1) by (simp only: of_int_le_iff)
    then have "of_int n - 1 / 2 \<le> x" by (simp add: x_def field_simps)
    then have "fl (of_int n - 1 / 2) \<le> fl x" by (rule fl_mono)
    moreover have "fl (of_int (2 * n - 1) * 2 powi (- 1)) = of_int (2 * n - 1) * 2 powi (- 1)"
      using nb by (intro fl_representable) (simp_all add: abs_less_iff)
    moreover have "rat_of_int (2 * n - 1) * 2 powi (- 1) = of_int n - 1 / 2"
      by (simp add: power_int_minus field_simps)
    ultimately show ?thesis by (simp only:)
  qed
  have hi: "fl x < of_int n + 1 / 2"
  proof -
    have "d \<le> 60000 * n + 29999" using n(2) by simp
    then have "rat_of_int d \<le> rat_of_int (60000 * n + 29999)"
      by (simp only: of_int_le_iff)
    then have "x \<le> of_int n + 29999 / 60000" by (simp add: x_def field_simps)
    also have "\<dots> \<le> of_int n + 32767 / 65536" by simp
    finally have "fl x \<le> fl (of_int n + 32767 / 65536)" by (rule fl_mono)
    moreover have "fl (of_int (65536 * n + 32767) * 2 powi (- 16))
                     = of_int (65536 * n + 32767) * 2 powi (- 16)"
      using nb by (intro fl_representable) (simp_all add: abs_less_iff)
    moreover have "rat_of_int (65536 * n + 32767) * 2 powi (- 16) = of_int n + 32767 / 65536"
      by (simp add: power_int_minus field_simps)
    ultimately have "fl x \<le> of_int n + 32767 / 65536" by (simp only:)
    then show ?thesis by simp
  qed
  have "Math_round (fl x) = n" using lo hi by (rule Math_round_unique)
  then show ?thesis by (simp add: dm whole_minutes_between_def n_def d_def)
qed

lemma durationMinutes_90:
  "getTime e - getTime s = 5400000 \<Longrightarrow> durationMinutes s e = 90"
proof -
  assume a: "getTime e - getTime s = 5400000"
  then have "durationMinutes s e = whole_minutes_between s e"
    by (intro durationMinutes_exact) simp
  then show ?thesis using a by (simp add: whole_minutes_between_def)
qed

section \<open>Properties of the write-back\<close>

lemma updateEntryDates_transaction:
  assumes "bound (startDateProp view)" "getNoteField h (startDateProp view) = Some sf" "sf \<noteq> []"
    and "bound (endDateProp view) \<longrightarrow> bound (getNoteField h (endDateProp view))"
  shows "updateEntryDates h view e newStart newEnd allDay =
           Some \<lparr>target = file_path e,
                 writes =
                   [(sf, YString (formatDateTimeForFrontmatter (timezoneOffset h) newStart))]
                   @ (case newEnd of
                        Some newEnd' \<Rightarrow>
                          if bound (endDateProp view) then
                            [(the (getNoteField h (endDateProp view)),
                              YString (formatDateTimeForFrontmatter (timezoneOffset h) newEnd'))]
                            @ (if 0 < durationMinutes newStart newEnd'
                               then [(''duration'', YNumber (durationMinutes newStart newEnd'))]
                               else [])
                          else []
                      | None \<Rightarrow> [])
                   @ (case allDay of
                        Some a \<Rightarrow>
                          if bound (getNoteField h (allDayProperty view))
                          then [(the (getNoteField h (allDayProperty view)), YBool a)] else []
                      | None \<Rightarrow> [])\<rparr>"
  using assms by (auto simp: updateEntryDates_def Let_def bound_def split: option.splits)

lemma updateEntryDates_performs:
  assumes "bound (startDateProp view)" "getNoteField h (startDateProp view) = Some sf" "sf \<noteq> []"
    and "bound (endDateProp view) \<longrightarrow> bound (getNoteField h (endDateProp view))"
  shows "\<exists>t. updateEntryDates h view e newStart newEnd allDay = Some t
            \<and> target t = file_path e
            \<and> (sf, YString (formatDateTimeForFrontmatter (timezoneOffset h) newStart))
                 \<in> set (writes t)
            \<and> (\<forall>ef newEnd'.
                  bound (endDateProp view) \<and> getNoteField h (endDateProp view) = Some ef
                  \<and> newEnd = Some newEnd' \<longrightarrow>
                  (ef, YString (formatDateTimeForFrontmatter (timezoneOffset h) newEnd'))
                    \<in> set (writes t))
            \<and> (\<forall>n. (''duration'', YNumber n) \<in> set (writes t) \<longleftrightarrow>
                  (\<exists>newEnd'. newEnd = Some newEnd' \<and> bound (endDateProp view)
                     \<and> n = durationMinutes newStart newEnd' \<and> 0 < n))"
  unfolding updateEntryDates_transaction [OF assms, of e newStart newEnd allDay]
  by (auto split: option.splits)

lemma format_example_start:
  "formatDateTimeForFrontmatter tz (Date (1709283600000 - tz)) = ''2024-03-01 09:00''"
  unfolding formatDateTimeForFrontmatter_def getFullYear_def getMonth_def getDate_def
    getHours_def getMinutes_def LocalTime_def Date.sel diff_add_cancel
  by code_simp

lemma format_example_end:
  "formatDateTimeForFrontmatter tz (Date (1709289000000 - tz)) = ''2024-03-01 10:30''"
  unfolding formatDateTimeForFrontmatter_def getFullYear_def getMonth_def getDate_def
    getHours_def getMinutes_def LocalTime_def Date.sel diff_add_cancel
  by code_simp

lemma duration_example:
  "durationMinutes (Date (1709283600000 - tz)) (Date (1709289000000 - tz)) = 90"
  by (rule durationMinutes_90) simp

text \<open>
  C2: when the start property is bound to a note field (and an end property, if one is
  configured, is too), the write-back runs one transaction on the file of the entry.  It
  writes the start field with the formatted new start.  When an end property is bound and an
  end is supplied it writes the end field with the formatted end.  A number is written to
  \<open>duration\<close> exactly when an end property is bound, an end is supplied and the duration
  in whole minutes is positive, and the number is that duration.  The format is the year,
  then month, day, hour and minute with two digits each, 16 characters for a four-digit
  year.  For dates at most \<open>2\<^sup>5\<^sup>2\<close> ms apart the duration is the exact difference
  rounded to whole minutes, and the instants 2024-03-01 09:00 and 2024-03-01 10:30 of the
  local time zone are written as such and give the duration 90.
\<close>

theorem updateEntryDates_writes_endpoints_and_duration:
  assumes "bound (startDateProp view)" "getNoteField h (startDateProp view) = Some sf" "sf \<noteq> []"
    and "bound (endDateProp view) \<longrightarrow> bound (getNoteField h (endDateProp view))"
  shows "(\<exists>t. updateEntryDates h view e newStart newEnd allDay = Some t
            \<and> target t = file_path e
            \<and> (sf, YString (formatDateTimeForFrontmatter (timezoneOffset h) newStart))
                 \<in> set (writes t)
            \<and> (\<forall>ef newEnd'.
                  bound (endDateProp view) \<and> getNoteField h (endDateProp view) = Some ef
                  \<and> newEnd = Some newEnd' \<longrightarrow>
                  (ef, YString (formatDateTimeForFrontmatter (timezoneOffset h) newEnd'))
                    \<in> set (writes t))
            \<and> (\<forall>n. (''duration'', YNumber n) \<in> set (writes t) \<longleftrightarrow>
                  (\<exists>newEnd'. newEnd = Some newEnd' \<and> bound (endDateProp view)
                     \<and> n = durationMinutes newStart newEnd' \<and> 0 < n)))
         \<and> formatDateTimeForFrontmatter tz d =
             String_int (getFullYear tz d) @ ''-'' @ two_digits (getMonth tz d + 1) @ ''-''
             @ two_digits (getDate tz d) @ '' '' @ two_digits (getHours tz d) @ '':''
             @ two_digits (getMinutes tz d)
         \<and> (1000 \<le> getFullYear tz d \<and> getFullYear tz d \<le> 9999 \<longrightarrow>
               length (formatDateTimeForFrontmatter tz d) = 16)
         \<and> (\<bar>getTime e' - getTime s'\<bar> \<le> 2 ^ 52 \<longrightarrow>
               durationMinutes s' e' = whole_minutes_between s' e')
         \<and> formatDateTimeForFrontmatter tz (Date (1709283600000 - tz)) = ''2024-03-01 09:00''
         \<and> formatDateTimeForFrontmatter tz (Date (1709289000000 - tz)) = ''2024-03-01 10:30''
         \<and> durationMinutes (Date (1709283600000 - tz)) (Date (1709289000000 - tz)) = 90"
proof (intro conjI impI)
  show "\<exists>t. updateEntryDates h view e newStart newEnd allDay = Some t
            \<and> target t = file_path e
            \<and> (sf, YString (formatDateTimeForFrontmatter (timezoneOffset h) newStart))
                 \<in> set (writes t)
            \<and> (\<forall>ef newEnd'.
                  bound (endDateProp view) \<and> getNoteField h (endDateProp view) = Some ef
                  \<and> newEnd = Some newEnd' \<longrightarrow>
                  (ef, YString (formatDateTimeForFrontmatter (timezoneOffset h) newEnd'))
                    \<in> set (writes t))
            \<and> (\<forall>n. (''duration'', YNumber n) \<in> set (writes t) \<longleftrightarrow>
                  (\<exists>newEnd'. newEnd = Some newEnd' \<and> bound (endDateProp view)
                     \<and> n = durationMinutes newStart newEnd' \<and> 0 < n))"
    by (rule updateEntryDates_performs [OF assms])
  show "formatDateTimeForFrontmatter tz d =
          String_int (getFullYear tz d) @ ''-'' @ two_digits (getMonth tz d + 1) @ ''-''
          @ two_digits (getDate tz d) @ '' '' @ two_digits (getHours tz d) @ '':''
          @ two_digits (getMinutes tz d)"
    by (rule formatDateTimeForFrontmatter_shape)
  show "length (formatDateTimeForFrontmatter tz d) = 16"
    if "1000 \<le> getFullYear tz d \<and> getFullYear tz d \<le> 9999"
    using that by (intro formatDateTimeForFrontmatter_length) simp_all
  show "durationMinutes s' e' = whole_minutes_between s' e'"
    if "\<bar>getTime e' - getTime s'\<bar> \<le> 2 ^ 52"
    using that by (rule durationMinutes_exact)
  show "formatDateTimeForFrontmatter tz (Date (1709283600000 - tz)) = ''2024-03-01 09:00''"
    by (rule format_example_start)
  show "formatDateTimeForFrontmatter tz (Date (1709289000000 - tz)) = ''2024-03-01 10:30''"
    by (rule format_example_end)
  show "durationMinutes (Date (1709283600000 - tz)) (Date (1709289000000 - tz)) = 90"
    by (rule duration_example)
qed

theorem updateEntryDates_writes_endpoints_and_duration_witness:
  "bound (startDateProp example_view)
   \<and> getNoteField example_host (startDateProp example_view) = Some ''start''
   \<and> bound (getNoteField example_host (endDateProp example_view))
   \<and> (\<exists>t. updateEntryDates example_host example_view example_record
              (Date 1709283600000) (Some (Date 1709289000000)) None = Some t
          \<and> (''start'', YString (formatDateTimeForFrontmatter (timezoneOffset example_host)
                                   (Date 1709283600000))) \<in> set (writes t))
   \<and> updateEntryDates example_host example_view example_record
         (Date 1709283600000) (Some (Date 1709289000000)) None
       = Some \<lparr>target = ''Events/Review.md'',
               writes = [(''start'', YString ''2024-03-01 09:00''),
                         (''end'', YString ''2024-03-01 10:30''),
                         (''duration'', YNumber 90)]\<rparr>
   \<and> (1000 \<le> getFullYear 0 (Date 1709283600000) \<and> getFullYear 0 (Date 1709283600000) \<le> 9999)
   \<and> length (formatDateTimeForFrontmatter 0 (Date 1709283600000)) = 16
   \<and> \<bar>getTime (Date 1709289000000) - getTime (Date 1709283600000)\<bar> \<le> 2 ^ 52
   \<and> durationMinutes (Date 1709283600000) (Date 1709289000000)
       = whole_minutes_between (Date 1709283600000) (Date 1709289000000)"
proof -
  have b: "bound (startDateProp example_view)"
    "getNoteField example_host (startDateProp example_view) = Some ''start''"
    "''start'' \<noteq> []"
    "bound (endDateProp example_view) \<longrightarrow> bound (getNoteField example_host (endDateProp example_view))"
    by (simp_all add: example_view_def example_host_def getNoteField_def bound_def)
  note T = updateEntryDates_writes_endpoints_and_duration
             [OF b, where tz = 0 and d = "Date 1709283600000" and e' = "Date 1709289000000"
                and s' = "Date 1709283600000" and e = example_record
                and newStart = "Date 1709283600000" and newEnd = "Some (Date 1709289000000)"
                and allDay = None]
  have "getFullYear 0 (Date 1709283600000) = 2024"
    unfolding getFullYear_def LocalTime_def by code_simp
  then have y: "1000 \<le> getFullYear 0 (Date 1709283600000)
                \<and> getFullYear 0 (Date 1709283600000) \<le> 9999"
    by simp
  have g: "\<bar>getTime (Date 1709289000000) - getTime (Date 1709283600000)\<bar> \<le> 2 ^ 52"
    by simp
  have ef: "getNoteField example_host (endDateProp example_view) = Some ''end''"
    by (simp add: example_view_def example_host_def getNoteField_def)
  have tz: "timezoneOffset example_host = 0" by (simp add: example_host_def)
  have u: "updateEntryDates example_host example_view example_record
         (Date 1709283600000) (Some (Date 1709289000000)) None
       = Some \<lparr>target = ''Events/Review.md'',
               writes = [(''start'', YString ''2024-03-01 09:00''),
                         (''end'', YString ''2024-03-01 10:30''),
                         (''duration'', YNumber 90)]\<rparr>"
    unfolding updateEntryDates_transaction [OF b] ef tz
    using format_example_start [of 0] format_example_end [of 0] duration_example [of 0] b(4)
    by (simp add: example_record_def example_view_def bound_def)
  from T have t1: "\<exists>t. updateEntryDates example_host example_view example_record
              (Date 1709283600000) (Some (Date 1709289000000)) None = Some t
          \<and> (''start'', YString (formatDateTimeForFrontmatter (timezoneOffset example_host)
                                   (Date 1709283600000))) \<in> set (writes t)"
    by blast
  from T y have t2: "length (formatDateTimeForFrontmatter 0 (Date 1709283600000)) = 16"
    by blast
  from T g have t3: "durationMinutes (Date 1709283600000) (Date 1709289000000)
       = whole_minutes_between (Date 1709283600000) (Date 1709289000000)"
    by blast
  have be': "bound (getNoteField example_host (endDateProp example_view))"
    by (simp add: ef bound_def)
  from b(1,2) be' t1 u y t2 g t3 show ?thesis by blast
qed

section \<open>Properties of the drop handlers\<close>



lemma handleEventDrop_no_flag:
  "handleEventDrop h view e newStart newEnd None = updateEntryDates h view e newStart newEnd None"
  by (simp add: handleEventDrop_def)



text \<open>A transaction leaves alone every field it does not write.\<close>

lemma fold_update_other:
  "k \<notin> fst ` set ws \<Longrightarrow> map_of (fold (\<lambda>(k, v). AList.update k v) ws fm) k = map_of fm k"
  by (induction ws arbitrary: fm) (auto simp: AList.update_conv')

lemma processFrontMatter_other:
  "k \<notin> fst ` set (writes t) \<Longrightarrow> map_of (processFrontMatter fm t) k = map_of fm k"
  by (simp add: processFrontMatter_def fold_update_other)

lemma updateEntryDates_SomeD:
  assumes "updateEntryDates h view e newStart newEnd allDay = Some t"
  shows "bound (startDateProp view) \<and> bound (getNoteField h (startDateProp view))
         \<and> (bound (endDateProp view) \<longrightarrow> bound (getNoteField h (endDateProp view)))"
  using assms by (simp add: updateEntryDates_def Let_def split: if_splits)

lemma updateEntryDates_no_flag_writes:
  assumes "updateEntryDates h view e newStart newEnd None = Some t"
  shows "(\<forall>k b. (k, YBool b) \<notin> set (writes t))
         \<and> (\<forall>k \<in> fst ` set (writes t).
               getNoteField h (startDateProp view) = Some k
               \<or> getNoteField h (endDateProp view) = Some k \<or> k = ''duration'')"
proof -
  from updateEntryDates_SomeD [OF assms] obtain sf where
    b: "bound (startDateProp view)" "getNoteField h (startDateProp view) = Some sf" "sf \<noteq> []"
       "bound (endDateProp view) \<longrightarrow> bound (getNoteField h (endDateProp view))"
    by (auto simp: bound_def)
  from assms show ?thesis
    unfolding updateEntryDates_transaction [OF b]
    using b(4) by (auto simp: b(2) bound_def split: option.splits if_splits)
qed

text \<open>
  C10: without an \<open>onEventDrop\<close> property, or for an event without a start, the drop is
  reverted.  Otherwise the callee is invoked with the entry, the new start, a defined end
  (the end of the event, or the new start when the event has none) and no all-day argument.
  With the adapter as the callee, the transaction that results writes no boolean to any
  field, and it leaves the stored all-day field as it was, provided that field is not also
  the start field, the end field or \<open>duration\<close>.
\<close>

theorem handleDrop_passes_defined_end_and_no_flag:
  "handleDrop None info = (Reverted :: 'r drop_result)
   \<and> (drop_start info = None \<longrightarrow> handleDrop (Some f) info = (Reverted :: 'r drop_result))
   \<and> (\<forall>s. drop_start info = Some s \<longrightarrow>
         handleDrop (Some f) info =
           Called (f (drop_entry info) s
                     (Some (case drop_end info of None \<Rightarrow> s | Some x \<Rightarrow> x)) None))
   \<and> (\<forall>t. handleDrop (Some (onEventDrop h view)) info = Called (Some t) \<longrightarrow>
         (\<forall>k b. (k, YBool b) \<notin> set (writes t))
         \<and> (\<forall>a fm. getNoteField h (allDayProperty view) = Some a
                \<and> getNoteField h (startDateProp view) \<noteq> Some a
                \<and> getNoteField h (endDateProp view) \<noteq> Some a
                \<and> a \<noteq> ''duration'' \<longrightarrow>
                map_of (processFrontMatter fm t) a = map_of fm a))"
proof (intro conjI allI impI)
  show "handleDrop None info = (Reverted :: 'r drop_result)"
    by (simp add: handleDrop_def)
  show "handleDrop (Some f) info = (Reverted :: 'r drop_result)" if "drop_start info = None"
    using that by (simp add: handleDrop_def)
  show "handleDrop (Some f) info =
          Called (f (drop_entry info) s
                    (Some (case drop_end info of None \<Rightarrow> s | Some x \<Rightarrow> x)) None)"
    if "drop_start info = Some s" for s
    using that by (simp add: handleDrop_def)
next
  fix t
  assume c: "handleDrop (Some (onEventDrop h view)) info = Called (Some t)"
  then obtain s en where
    u: "updateEntryDates h view (drop_entry info) s en None = Some t"
    by (auto simp: handleDrop_def onEventDrop_def handleEventDrop_no_flag split: option.splits)
  note w = updateEntryDates_no_flag_writes [OF u]
  show "(k, YBool b) \<notin> set (writes t)" for k b
    using w by simp
  show "map_of (processFrontMatter fm t) a = map_of fm a"
    if "getNoteField h (allDayProperty view) = Some a
        \<and> getNoteField h (startDateProp view) \<noteq> Some a
        \<and> getNoteField h (endDateProp view) \<noteq> Some a
        \<and> a \<noteq> ''duration''" for a fm
  proof -
    have "a \<notin> fst ` set (writes t)"
      using w that by auto
    then show ?thesis by (rule processFrontMatter_other)
  qed
qed

theorem handleDrop_passes_defined_end_and_no_flag_witness:
  "drop_start example_drop = Some (Date 1709370000000)
   \<and> handleDrop (Some (onEventDrop example_host example_view)) example_drop
       = Called (Some \<lparr>target = ''Events/Review.md'',
                        writes = [(''start'', YString ''2024-03-02 09:00''),
                                  (''end'', YString ''2024-03-02 09:00'')]\<rparr>)
   \<and> getNoteField example_host (allDayProperty example_view) = Some ''allDay''
   \<and> getNoteField example_host (startDateProp example_view) \<noteq> Some ''allDay''
   \<and> getNoteField example_host (endDateProp example_view) \<noteq> Some ''allDay''
   \<and> ''allDay'' \<noteq> ''duration''
   \<and> map_of (processFrontMatter [(''allDay'', YBool True), (''start'', YString ''x'')]
               \<lparr>target = ''Events/Review.md'',
                  writes = [(''start'', YString ''2024-03-02 09:00''),
                            (''end'', YString ''2024-03-02 09:00'')]\<rparr>) ''allDay''
       = Some (YBool True)"
proof -
  let ?t = "\<lparr>target = ''Events/Review.md'',
              writes = [(''start'', YString ''2024-03-02 09:00''),
                        (''end'', YString ''2024-03-02 09:00'')]\<rparr>"
  have b: "bound (startDateProp example_view)"
    "getNoteField example_host (startDateProp example_view) = Some ''start''"
    "''start'' \<noteq> []"
    "bound (endDateProp example_view) \<longrightarrow> bound (getNoteField example_host (endDateProp example_view))"
    by (simp_all add: example_view_def example_host_def getNoteField_def bound_def)
  have ef: "getNoteField example_host (endDateProp example_view) = Some ''end''"
    and ad: "getNoteField example_host (allDayProperty example_view) = Some ''allDay''"
    and be: "bound (endDateProp example_view)"
    by (simp_all add: example_view_def example_host_def getNoteField_def bound_def)
  have tz: "timezoneOffset example_host = 0" by (simp add: example_host_def)
  have f: "formatDateTimeForFrontmatter 0 (Date 1709370000000) = ''2024-03-02 09:00''"
    unfolding formatDateTimeForFrontmatter_def getFullYear_def getMonth_def getDate_def
      getHours_def getMinutes_def LocalTime_def
    by code_simp
  have z: "durationMinutes (Date 1709370000000) (Date 1709370000000) = 0"
    by (simp add: durationMinutes_exact whole_minutes_between_def)
  have s: "drop_start example_drop = Some (Date 1709370000000)"
    by (simp add: example_drop_def)
  have u: "updateEntryDates example_host example_view e (Date 1709370000000)
              (Some (Date 1709370000000)) None
            = Some \<lparr>target = file_path e,
                    writes = [(''start'', YString ''2024-03-02 09:00''),
                              (''end'', YString ''2024-03-02 09:00'')]\<rparr>" for e
    by (simp add: updateEntryDates_transaction [OF b] ef tz f z be)
  have c: "handleDrop (Some (onEventDrop example_host example_view)) example_drop = Called (Some ?t)"
    by (simp add: handleDrop_def onEventDrop_def handleEventDrop_no_flag example_drop_def u
          example_record_def)
  note T = handleDrop_passes_defined_end_and_no_flag
             [where info = example_drop and h = example_host and view = example_view]
  have n: "getNoteField example_host (startDateProp example_view) \<noteq> Some ''allDay''"
    "getNoteField example_host (endDateProp example_view) \<noteq> Some ''allDay''"
    "''allDay'' \<noteq> ''duration''"
    by (simp_all add: b(2) ef)
  from T c ad n have
    "map_of (processFrontMatter [(''allDay'', YBool True), (''start'', YString ''x'')] ?t)
       ''allDay'' = map_of [(''allDay'', YBool True), (''start'', YString ''x'')] ''allDay''"
    by blast
  then have m: "map_of (processFrontMatter [(''allDay'', YBool True), (''start'', YString ''x'')] ?t)
       ''allDay'' = Some (YBool True)"
    by simp
  from s c ad n m show ?thesis by blast
qed

section \<open>Properties of the event mapping\<close>








section \<open>Properties of the unique path\<close>

lemma digit_char_inj: "a < 10 \<Longrightarrow> b < 10 \<Longrightarrow> digit_char a = digit_char b \<Longrightarrow> a = b"
proof -
  assume a: "a < 10" "b < 10" "digit_char a = digit_char b"
  from a(3) have "(of_char (digit_char a) :: nat) = of_char (digit_char b)" by simp
  with a(1,2) show ?thesis by (simp add: digit_char_def)
qed

lemma decimal_not_Nil: "decimal n \<noteq> []"
  by (subst decimal.simps) simp

lemma decimal_last: "last (decimal n) = digit_char (n mod 10)"
  by (subst decimal.simps) simp

lemma decimal_butlast: "butlast (decimal n) = (if n < 10 then [] else decimal (n div 10))"
  by (subst decimal.simps) (simp add: butlast_append del: decimal.simps)

text \<open>Different numbers have different decimal representations.\<close>

lemma decimal_inj: "decimal n = decimal m \<Longrightarrow> n = m"
proof (induction n arbitrary: m rule: less_induct)
  case (less n)
  from less.prems have l: "digit_char (n mod 10) = digit_char (m mod 10)"
    by (metis decimal_last)
  then have d: "n mod 10 = m mod 10" by (intro digit_char_inj) simp_all
  from less.prems have b: "butlast (decimal n) = butlast (decimal m)" by simp
  show ?case
  proof (cases "n < 10")
    case True
    with b have "m < 10"
      using decimal_not_Nil [of "m div 10"] by (auto simp: decimal_butlast split: if_splits)
    with True d show ?thesis by simp
  next
    case False
    with b have m: "\<not> m < 10"
      using decimal_not_Nil [of "n div 10"] by (auto simp: decimal_butlast split: if_splits)
    with False b have "decimal (n div 10) = decimal (m div 10)"
      by (simp add: decimal_butlast del: decimal.simps)
    moreover have "n div 10 < n" using False by simp
    ultimately have "n div 10 = m div 10" by (rule less.IH [rotated])
    with d show ?thesis by (metis div_mult_mod_eq)
  qed
qed

text \<open>
  The loop, entered with an existing path and the counter at \<open>c\<close>, returns the numbered
  candidate of the first counter from \<open>c\<close> on whose candidate is free.
\<close>

lemma unique_path_loop_first_free:
  assumes "getAbstractFileByPath v path \<noteq> None"
    and "c \<le> n"
    and "\<forall>k. c \<le> k \<and> k < n \<longrightarrow> getAbstractFileByPath v (numbered_path h folder ttl suffix k) \<noteq> None"
    and "getAbstractFileByPath v (numbered_path h folder ttl suffix n) = None"
  shows "unique_path_loop h v folder ttl suffix path c = Some (numbered_path h folder ttl suffix n)"
  using assms
proof (induction "n - c" arbitrary: c path)
  case 0
  then have "c = n" by simp
  with 0 show ?case
    by (subst unique_path_loop.simps, simp, subst unique_path_loop.simps, simp)
next
  case (Suc d)
  then have lt: "c < n" by simp
  with Suc.prems have ex: "getAbstractFileByPath v (numbered_path h folder ttl suffix c) \<noteq> None"
    by simp
  have "unique_path_loop h v folder ttl suffix (numbered_path h folder ttl suffix c) (c + 1)
          = Some (numbered_path h folder ttl suffix n)"
    using Suc.hyps(2) lt Suc.prems(3,4) ex by (intro Suc.hyps(1)) simp_all
  with Suc.prems(1) show ?case
    by (subst unique_path_loop.simps) simp
qed

text \<open>A vault is finite, so distinct candidates cannot all exist.\<close>

lemma free_candidate_exists:
  assumes "inj f"
  shows "\<exists>n\<ge>1. getAbstractFileByPath v (f (n::nat)) = None"
proof (rule ccontr)
  assume "\<not> (\<exists>n\<ge>1. getAbstractFileByPath v (f n) = None)"
  then have "f ` {1..} \<subseteq> dom (map_of v)"
    by (auto simp: getAbstractFileByPath_def)
  then have "finite (f ` {1..})"
    using finite_dom_map_of by (rule finite_subset)
  then have "finite {1::nat..}"
    using assms by (metis finite_imageD inj_on_subset subset_UNIV)
  then show False by (simp add: infinite_Ici)
qed

lemma first_free_candidate:
  assumes "inj f"
  obtains n where "1 \<le> n" "getAbstractFileByPath v (f (n::nat)) = None"
    "\<forall>k. 1 \<le> k \<and> k < n \<longrightarrow> getAbstractFileByPath v (f k) \<noteq> None"
proof -
  let ?P = "\<lambda>n. 1 \<le> n \<and> getAbstractFileByPath v (f n) = None"
  from free_candidate_exists [OF assms, of v] have "\<exists>n. ?P n" by blast
  then obtain n where "?P n" "\<forall>k<n. \<not> ?P k"
    using exists_least_iff [of ?P] by blast
  then show ?thesis by (intro that [of n]) auto
qed

lemma dateSuffix_shape:
  "dateSuffix h date =
     String_int (getFullYear (timezoneOffset h) date) @ ''-''
     @ two_digits (getMonth (timezoneOffset h) date + 1) @ ''-''
     @ two_digits (getDate (timezoneOffset h) date)"
  using getMonth_range [of "timezoneOffset h" date] getDate_range [of "timezoneOffset h" date]
  by (simp add: dateSuffix_def pad_two_digits del: decimal.simps)

text \<open>\<open>createEvent\<close> hands the start of the new event to the path builder.\<close>

lemma createEvent_path:
  assumes "trim ttl \<noteq> []" "createEvent h cfg v (Some ttl) start en = Some (Created path content)"
  shows "buildUniquePath h v (resolveFolderPath h cfg) (trim ttl) start = Some path"
  using assms by (auto simp: createEvent_def Let_def split: option.splits sum.splits)

text \<open>
  C3, as stated: after a collision on \<open>Title.md\<close> the builder tries the title followed
  by today's date.  The date it uses is its \<open>date\<close> argument, the start of the event
  being created.  With \<open>Meeting.md\<close> in the vault, today being 2024-03-10 and the event
  starting on 2024-03-02, the path with today's date is free, and the builder returns the
  path with the date of the event.
\<close>

theorem buildUniquePath_today_counterexample:
  "getAbstractFileByPath meeting_vault
     (normalizePath example_host
        (''/'' @ ''/'' @ ''Meeting'' @ '' '' @ dateSuffix example_host (today example_host)
         @ ''.md'')) = None
   \<and> buildUniquePath example_host meeting_vault ''/'' ''Meeting'' (Date 1709370000000)
       \<noteq> Some (normalizePath example_host
                 (''/'' @ ''/'' @ ''Meeting'' @ '' '' @ dateSuffix example_host (today example_host)
                  @ ''.md''))"
proof -
  have t: "dateSuffix example_host (today example_host) = ''2024-03-10''"
    unfolding dateSuffix_def getFullYear_def getMonth_def getDate_def LocalTime_def
      example_host_def
    by code_simp
  have s: "dateSuffix example_host (Date 1709370000000) = ''2024-03-02''"
    unfolding dateSuffix_def getFullYear_def getMonth_def getDate_def LocalTime_def
      example_host_def
    by code_simp
  have n: "normalizePath example_host = dropWhile (\<lambda>c. c = CHR ''/'')"
    by (simp add: example_host_def)
  have "buildUniquePath example_host meeting_vault ''/'' ''Meeting'' (Date 1709370000000)
          = Some ''Meeting 2024-03-02.md''"
    unfolding buildUniquePath_def s n Let_def
    by (subst unique_path_loop.simps)
       (simp add: getAbstractFileByPath_def meeting_vault_def)
  then show ?thesis
    unfolding t n by (simp add: getAbstractFileByPath_def meeting_vault_def)
qed

text \<open>
  C3, amended: provided the normalized numbered candidates are pairwise different paths,
  the builder returns a path, and the path names no existing file or folder.  It is
  \<open>Title.md\<close> in the folder when that is free; otherwise the title followed by the date
  of the \<open>date\<close> argument (year, two-digit month, two-digit day) when that is free;
  otherwise that name followed by the first of the counters 1, 2, ... whose path is free.
\<close>

theorem buildUniquePath_first_free:
  assumes "inj (numbered_path h folder ttl (dateSuffix h date))"
  shows "(\<exists>p. buildUniquePath h v folder ttl date = Some p
     \<and> getAbstractFileByPath v p = None
     \<and> (getAbstractFileByPath v (normalizePath h (folder @ ''/'' @ ttl @ ''.md'')) = None
          \<longrightarrow> p = normalizePath h (folder @ ''/'' @ ttl @ ''.md''))
     \<and> (getAbstractFileByPath v (normalizePath h (folder @ ''/'' @ ttl @ ''.md'')) \<noteq> None
        \<and> getAbstractFileByPath v
            (normalizePath h (folder @ ''/'' @ ttl @ '' '' @ dateSuffix h date @ ''.md'')) = None
          \<longrightarrow> p = normalizePath h (folder @ ''/'' @ ttl @ '' '' @ dateSuffix h date @ ''.md''))
     \<and> (getAbstractFileByPath v (normalizePath h (folder @ ''/'' @ ttl @ ''.md'')) \<noteq> None
        \<and> getAbstractFileByPath v
            (normalizePath h (folder @ ''/'' @ ttl @ '' '' @ dateSuffix h date @ ''.md'')) \<noteq> None
          \<longrightarrow> (\<exists>n\<ge>1. p = numbered_path h folder ttl (dateSuffix h date) n
                 \<and> (\<forall>k. 1 \<le> k \<and> k < n \<longrightarrow>
                       getAbstractFileByPath v (numbered_path h folder ttl (dateSuffix h date) k)
                         \<noteq> None))))
     \<and> dateSuffix h date =
         String_int (getFullYear (timezoneOffset h) date) @ ''-''
         @ two_digits (getMonth (timezoneOffset h) date + 1) @ ''-''
         @ two_digits (getDate (timezoneOffset h) date)"
proof (rule conjI)
  define plain where "plain = normalizePath h (folder @ ''/'' @ ttl @ ''.md'')"
  define dated where
    "dated = normalizePath h (folder @ ''/'' @ ttl @ '' '' @ dateSuffix h date @ ''.md'')"
  define num where "num = numbered_path h folder ttl (dateSuffix h date)"
  define ex where "ex = (\<lambda>p. getAbstractFileByPath v p \<noteq> None)"
  define res where "res = buildUniquePath h v folder ttl date"
  have "\<exists>p. res = Some p \<and> \<not> ex p
     \<and> (\<not> ex plain \<longrightarrow> p = plain)
     \<and> (ex plain \<and> \<not> ex dated \<longrightarrow> p = dated)
     \<and> (ex plain \<and> ex dated
          \<longrightarrow> (\<exists>n\<ge>1. p = num n \<and> (\<forall>k. 1 \<le> k \<and> k < n \<longrightarrow> ex (num k))))"
  proof (cases "ex plain")
    case False
    then have "res = Some plain"
      by (simp add: res_def ex_def plain_def buildUniquePath_def Let_def)
    with False show ?thesis by (intro exI [of _ plain]) simp
  next
    case plain: True
    then have b: "res = unique_path_loop h v folder ttl (dateSuffix h date) dated 1"
      by (auto simp: res_def ex_def plain_def dated_def buildUniquePath_def Let_def)
    show ?thesis
    proof (cases "ex dated")
      case False
      then have "res = Some dated"
        unfolding b ex_def by (subst unique_path_loop.simps) simp
      with False plain show ?thesis by (intro exI [of _ dated]) simp
    next
      case dated: True
      obtain n where
        n0: "1 \<le> n"
          "getAbstractFileByPath v (numbered_path h folder ttl (dateSuffix h date) n) = None"
          "\<forall>k. 1 \<le> k \<and> k < n \<longrightarrow>
             getAbstractFileByPath v (numbered_path h folder ttl (dateSuffix h date) k) \<noteq> None"
        by (rule first_free_candidate [OF assms, of v])
      then have n: "1 \<le> n" "\<not> ex (num n)" "\<forall>k. 1 \<le> k \<and> k < n \<longrightarrow> ex (num k)"
        by (simp_all add: ex_def num_def)
      have "res = Some (num n)"
        unfolding b num_def using dated n
        by (intro unique_path_loop_first_free) (simp_all add: ex_def num_def)
      with n plain dated show ?thesis by (intro exI [of _ "num n"]) auto
    qed
  qed
  then show "\<exists>p. buildUniquePath h v folder ttl date = Some p
     \<and> getAbstractFileByPath v p = None
     \<and> (getAbstractFileByPath v (normalizePath h (folder @ ''/'' @ ttl @ ''.md'')) = None
          \<longrightarrow> p = normalizePath h (folder @ ''/'' @ ttl @ ''.md''))
     \<and> (getAbstractFileByPath v (normalizePath h (folder @ ''/'' @ ttl @ ''.md'')) \<noteq> None
        \<and> getAbstractFileByPath v
            (normalizePath h (folder @ ''/'' @ ttl @ '' '' @ dateSuffix h date @ ''.md'')) = None
          \<longrightarrow> p = normalizePath h (folder @ ''/'' @ ttl @ '' '' @ dateSuffix h date @ ''.md''))
     \<and> (getAbstractFileByPath v (normalizePath h (folder @ ''/'' @ ttl @ ''.md'')) \<noteq> None
        \<and> getAbstractFileByPath v
            (normalizePath h (folder @ ''/'' @ ttl @ '' '' @ dateSuffix h date @ ''.md'')) \<noteq> None
          \<longrightarrow> (\<exists>n\<ge>1. p = numbered_path h folder ttl (dateSuffix h date) n
                 \<and> (\<forall>k. 1 \<le> k \<and> k < n \<longrightarrow>
                       getAbstractFileByPath v (numbered_path h folder ttl (dateSuffix h date) k)
                         \<noteq> None)))"
    unfolding res_def ex_def plain_def dated_def num_def by (simp only: not_not)
  show "dateSuffix h date =
         String_int (getFullYear (timezoneOffset h) date) @ ''-''
         @ two_digits (getMonth (timezoneOffset h) date + 1) @ ''-''
         @ two_digits (getDate (timezoneOffset h) date)"
    by (rule dateSuffix_shape)
qed

text \<open>Under the example host the numbered candidates differ in their counters only.\<close>

lemma example_numbered_inj: "inj (numbered_path example_host ''/'' ''Meeting'' suffix)"
proof (rule injI)
  fix a b
  assume "numbered_path example_host ''/'' ''Meeting'' suffix a
            = numbered_path example_host ''/'' ''Meeting'' suffix b"
  then have "decimal a @ ''.md'' = decimal b @ ''.md''"
    by (simp add: numbered_path_def example_host_def del: decimal.simps)
  then show "a = b" by (simp add: decimal_inj del: decimal.simps)
qed

theorem buildUniquePath_first_free_witness:
  "inj (numbered_path example_host ''/'' ''Meeting'' (dateSuffix example_host (Date 1709370000000)))
   \<and> getAbstractFileByPath crowded_vault
        (normalizePath example_host (''/'' @ ''/'' @ ''Meeting'' @ ''.md'')) \<noteq> None
   \<and> getAbstractFileByPath crowded_vault
        (normalizePath example_host
           (''/'' @ ''/'' @ ''Meeting'' @ '' '' @ dateSuffix example_host (Date 1709370000000)
            @ ''.md'')) \<noteq> None
   \<and> buildUniquePath example_host crowded_vault ''/'' ''Meeting'' (Date 1709370000000)
       = Some ''Meeting 2024-03-02 2.md''
   \<and> (\<exists>p. buildUniquePath example_host crowded_vault ''/'' ''Meeting'' (Date 1709370000000)
              = Some p
          \<and> getAbstractFileByPath crowded_vault p = None)
   \<and> getAbstractFileByPath meeting_vault
        (normalizePath example_host
           (''/'' @ ''/'' @ ''Meeting'' @ '' '' @ dateSuffix example_host (Date 1709370000000)
            @ ''.md'')) = None
   \<and> buildUniquePath example_host meeting_vault ''/'' ''Meeting'' (Date 1709370000000)
       = Some ''Meeting 2024-03-02.md''
   \<and> getAbstractFileByPath []
        (normalizePath example_host (''/'' @ ''/'' @ ''Meeting'' @ ''.md'')) = None
   \<and> buildUniquePath example_host [] ''/'' ''Meeting'' (Date 1709370000000)
       = Some ''Meeting.md''"
proof -
  let ?d = "Date 1709370000000"
  have s: "dateSuffix example_host ?d = ''2024-03-02''"
    unfolding dateSuffix_def getFullYear_def getMonth_def getDate_def LocalTime_def
      example_host_def
    by code_simp
  have n: "normalizePath example_host = dropWhile (\<lambda>c. c = CHR ''/'')"
    by (simp add: example_host_def)
  note i = example_numbered_inj [of "dateSuffix example_host ?d"]
  note T = buildUniquePath_first_free [OF i]
  have c1: "getAbstractFileByPath crowded_vault
              (normalizePath example_host (''/'' @ ''/'' @ ''Meeting'' @ ''.md'')) \<noteq> None"
    and c2: "getAbstractFileByPath crowded_vault
        (normalizePath example_host
           (''/'' @ ''/'' @ ''Meeting'' @ '' '' @ dateSuffix example_host ?d @ ''.md'')) \<noteq> None"
    and m2: "getAbstractFileByPath meeting_vault
        (normalizePath example_host
           (''/'' @ ''/'' @ ''Meeting'' @ '' '' @ dateSuffix example_host ?d @ ''.md'')) = None"
    and m1: "getAbstractFileByPath meeting_vault
              (normalizePath example_host (''/'' @ ''/'' @ ''Meeting'' @ ''.md'')) \<noteq> None"
    and e1: "getAbstractFileByPath []
        (normalizePath example_host (''/'' @ ''/'' @ ''Meeting'' @ ''.md'')) = None"
    unfolding s n by (simp_all add: getAbstractFileByPath_def crowded_vault_def meeting_vault_def)
  have d12: "decimal 1 = ''1''" "decimal 2 = ''2''"
    by code_simp+
  have num: "numbered_path example_host ''/'' ''Meeting'' ''2024-03-02'' 1
               = ''Meeting 2024-03-02 1.md''"
    "numbered_path example_host ''/'' ''Meeting'' ''2024-03-02'' 2
               = ''Meeting 2024-03-02 2.md''"
    unfolding numbered_path_def n d12 by simp_all
  have "unique_path_loop example_host crowded_vault ''/'' ''Meeting'' ''2024-03-02''
          ''Meeting 2024-03-02.md'' 1
        = Some (numbered_path example_host ''/'' ''Meeting'' ''2024-03-02'' 2)"
  proof (rule unique_path_loop_first_free)
    show "getAbstractFileByPath crowded_vault ''Meeting 2024-03-02.md'' \<noteq> None"
      by (simp add: getAbstractFileByPath_def crowded_vault_def)
    show "(1::nat) \<le> 2" by simp
    show "\<forall>k. 1 \<le> k \<and> k < 2 \<longrightarrow>
            getAbstractFileByPath crowded_vault
              (numbered_path example_host ''/'' ''Meeting'' ''2024-03-02'' k) \<noteq> None"
    proof (intro allI impI)
      fix k :: nat
      assume "1 \<le> k \<and> k < 2"
      then have "k = 1" by simp
      then show "getAbstractFileByPath crowded_vault
              (numbered_path example_host ''/'' ''Meeting'' ''2024-03-02'' k) \<noteq> None"
        unfolding \<open>k = 1\<close> num by (simp add: getAbstractFileByPath_def crowded_vault_def)
    qed
    show "getAbstractFileByPath crowded_vault
            (numbered_path example_host ''/'' ''Meeting'' ''2024-03-02'' 2) = None"
      unfolding num by (simp add: getAbstractFileByPath_def crowded_vault_def)
  qed
  then have r1: "buildUniquePath example_host crowded_vault ''/'' ''Meeting'' ?d
              = Some ''Meeting 2024-03-02 2.md''"
    unfolding buildUniquePath_def s n Let_def num
    by (simp add: getAbstractFileByPath_def crowded_vault_def)
  from T [of crowded_vault] have r2:
    "\<exists>p. buildUniquePath example_host crowded_vault ''/'' ''Meeting'' ?d = Some p
          \<and> getAbstractFileByPath crowded_vault p = None"
    by blast
  from T [of meeting_vault] m1 m2 have
    "buildUniquePath example_host meeting_vault ''/'' ''Meeting'' ?d
       = Some (normalizePath example_host
                 (''/'' @ ''/'' @ ''Meeting'' @ '' '' @ dateSuffix example_host ?d @ ''.md''))"
    by blast
  then have r3: "buildUniquePath example_host meeting_vault ''/'' ''Meeting'' ?d
                   = Some ''Meeting 2024-03-02.md''"
    unfolding s n by simp
  from T [of "[]"] e1 have
    "buildUniquePath example_host [] ''/'' ''Meeting'' ?d
       = Some (normalizePath example_host (''/'' @ ''/'' @ ''Meeting'' @ ''.md''))"
    by blast
  then have r4: "buildUniquePath example_host [] ''/'' ''Meeting'' ?d = Some ''Meeting.md''"
    unfolding n by simp
  from i c1 c2 r1 r2 m2 r3 e1 r4 show ?thesis by (intro conjI)
qed

section \<open>Content of the created note\<close>

text \<open>Assigning the computed fields keeps every other key and rebinds the computed ones.\<close>

lemma assign_fields_keeps:
  "k \<notin> fst ` set computed \<Longrightarrow> map_of (assign_fields fm computed) k = map_of fm k"
  unfolding assign_fields_def
  by (induction computed arbitrary: fm) (auto simp: update_conv')

lemma assign_fields_overrides:
  "distinct (map fst computed) \<Longrightarrow> (k, v) \<in> set computed \<Longrightarrow>
   map_of (assign_fields fm computed) k = Some (YString v)"
proof (induction computed arbitrary: fm)
  case Nil
  then show ?case by simp
next
  case (Cons c computed)
  obtain k' v' where c: "c = (k', v')" by (cases c)
  show ?case
  proof (cases "(k, v) \<in> set computed")
    case True
    with Cons show ?thesis by (simp add: assign_fields_def)
  next
    case False
    with Cons.prems c have kv: "k' = k" "v' = v" by auto
    from Cons.prems c kv have "k \<notin> fst ` set computed" by auto
    from assign_fields_keeps [OF this, of "AList.update k (YString v) fm"]
    show ?thesis by (simp add: assign_fields_def c kv update_conv')
  qed
qed

lemma assign_fields_keys:
  "fst ` set (assign_fields fm computed) = fst ` set fm \<union> fst ` set computed"
  unfolding assign_fields_def
proof (induction computed arbitrary: fm)
  case Nil
  then show ?case by simp
next
  case (Cons c computed)
  obtain k v where c: "c = (k, v)" by (cases c)
  have "fst ` set (AList.update k (YString v) fm) = insert k (fst ` set fm)"
    using dom_update [of k "YString v" fm] by (simp add: dom_map_of_conv_image_fst)
  with Cons [of "AList.update k (YString v) fm"] c show ?case by auto
qed

lemma buildFrontmatter_distinct:
  "distinct (map fst (buildFrontmatter h cfg ttl start en))"
  by (simp add: buildFrontmatter_def Let_def distinct_update)

lemma buildFrontmatter_title:
  "map_of (buildFrontmatter h cfg ttl start en) ''title'' \<noteq> None"
  by (simp add: buildFrontmatter_def Let_def update_conv')

text \<open>
  The three ways through \<open>buildNoteContent\<close> that return: no block, a block that stands
  for a mapping, a block that stands for a scalar; and the two that throw.
\<close>

lemma buildNoteContent_no_block:
  "\<not> has_frontmatter_block tpl \<Longrightarrow>
   buildNoteContent h (Some tpl) computed = Inr (synthesized h tpl computed)"
  by (auto simp: buildNoteContent_def has_frontmatter_block_def Let_def split: option.splits)

lemma buildNoteContent_no_template:
  "buildNoteContent h None computed = Inr (synthesized h [] computed)"
  by (simp add: buildNoteContent_def Let_def trimStart_def startsWith_def)

lemma buildNoteContent_block:
  assumes "has_frontmatter_block tpl"
  shows "buildNoteContent h (Some tpl) computed =
           (case frontmatter_object h tpl of
              Throws \<Rightarrow> Inl YamlParseError
            | Returns None \<Rightarrow> Inl TypeError
            | Returns (Some fmObj) \<Rightarrow>
                Inr (''---'' @ [CHR 0x0A] @ stringifyYaml h (Object_assign fmObj computed)
                     @ ''---'' @ [CHR 0x0A, CHR 0x0A] @ template_body tpl))"
proof -
  from assms obtain en where en: "indexOf (trimStart tpl) ''---'' 3 = Some en"
    and sw: "startsWith (trimStart tpl) ''---''"
    by (auto simp: has_frontmatter_block_def)
  show ?thesis
    by (auto simp: buildNoteContent_def Let_def sw en frontmatter_object_def
          frontmatter_text_def template_body_def split: outcome.splits option.splits)
qed

lemma buildNoteContent_mapping_block:
  assumes "has_frontmatter_block tpl"
    and "frontmatter_object h tpl = Returns (Some (Mapping fm))"
  shows "buildNoteContent h (Some tpl) computed =
           Inr (''---'' @ [CHR 0x0A] @ stringifyYaml h (Mapping (assign_fields fm computed))
                @ ''---'' @ [CHR 0x0A, CHR 0x0A] @ template_body tpl)"
  using buildNoteContent_block [OF assms(1), of h computed] assms(2) by simp

lemma buildNoteContent_scalar_block:
  assumes "has_frontmatter_block tpl"
    and "frontmatter_object h tpl = Returns (Some (Primitive p))"
  shows "buildNoteContent h (Some tpl) computed =
           Inr (''---'' @ [CHR 0x0A] @ stringifyYaml h (Primitive p)
                @ ''---'' @ [CHR 0x0A, CHR 0x0A] @ template_body tpl)"
  using buildNoteContent_block [OF assms(1), of h computed] assms(2) by simp

lemma buildNoteContent_rejected_block:
  assumes "has_frontmatter_block tpl" and "frontmatter_object h tpl = Throws"
  shows "buildNoteContent h (Some tpl) computed = Inl YamlParseError"
  using buildNoteContent_block [OF assms(1), of h computed] assms(2) by simp

lemma tagged_template_block:
  "has_frontmatter_block tagged_template
   \<and> frontmatter_object example_host tagged_template
       = Returns (Some (Mapping [(''tags'', YString ''work'')]))
   \<and> template_body tagged_template = ''Bring notes''"
  by code_simp

lemma agenda_template_block:
  "has_frontmatter_block agenda_template
   \<and> frontmatter_object example_host agenda_template = Returns (Some (Primitive ''Agenda''))
   \<and> template_body agenda_template = ''Bring notes''"
  by code_simp

lemma broken_template_block:
  "has_frontmatter_block broken_template
   \<and> frontmatter_object example_host broken_template = Throws"
  by code_simp

lemma example_buildFrontmatter:
  "buildFrontmatter example_host agenda_config ''Meeting'' (Date 1709370000000)
     (Date 1709373600000)
   = [(''title'', ''Meeting''), (''start'', ''2024-03-02 09:00''),
      (''end'', ''2024-03-02 10:00''), (''allDay'', ''false'')]"
  by code_simp

lemma tagged_template_content:
  "buildNoteContent example_host (Some tagged_template)
     [(''title'', ''Meeting''), (''start'', ''2024-03-02 09:00''),
      (''end'', ''2024-03-02 10:00''), (''allDay'', ''false'')]
   = Inr (''---'' @ [CHR 0x0A] @ ''tags: work'' @ [CHR 0x0A] @ ''title: Meeting'' @ [CHR 0x0A]
          @ ''start: 2024-03-02 09:00'' @ [CHR 0x0A] @ ''end: 2024-03-02 10:00'' @ [CHR 0x0A]
          @ ''allDay: false'' @ [CHR 0x0A] @ ''---'' @ [CHR 0x0A, CHR 0x0A] @ ''Bring notes'')"
  by code_simp

text \<open>
  C8: the content of the created note is to be the template's frontmatter with the computed
  fields merged over it, followed by the body, when the template begins with a frontmatter
  block, and a synthesized block of the computed fields followed by the raw template
  otherwise.  The template below is taken as beginning with a block, the text of the block
  is the plain scalar \<open>Agenda\<close>, the assignment of the computed fields to a scalar is lost,
  and the note is created with none of the title, start, end and all-day fields: its
  content is neither of the two.  On a template whose block text the parser rejects the
  exception leaves \<open>buildNoteContent\<close>, for any fields, and no note is created.
\<close>

theorem createEvent_scalar_block_drops_fields:
  "has_frontmatter_block agenda_template
   \<and> loadTemplate example_host agenda_vault (templatePath agenda_config) = Some agenda_template
   \<and> buildFrontmatter example_host agenda_config ''Meeting'' (Date 1709370000000)
        (Date 1709373600000)
      = [(''title'', ''Meeting''), (''start'', ''2024-03-02 09:00''),
         (''end'', ''2024-03-02 10:00''), (''allDay'', ''false'')]
   \<and> createEvent example_host agenda_config agenda_vault (Some ''Meeting'')
        (Date 1709370000000) (Date 1709373600000)
      = Some (Created ''Meeting.md''
                (''---'' @ [CHR 0x0A] @ ''Agenda'' @ [CHR 0x0A] @ ''---'' @ [CHR 0x0A, CHR 0x0A]
                 @ ''Bring notes''))
   \<and> has_frontmatter_block broken_template
   \<and> buildNoteContent example_host (Some broken_template) computed = Inl YamlParseError"
proof -
  have "has_frontmatter_block agenda_template" by code_simp
  moreover have "loadTemplate example_host agenda_vault (templatePath agenda_config)
                   = Some agenda_template" by code_simp
  moreover have "buildFrontmatter example_host agenda_config ''Meeting'' (Date 1709370000000)
        (Date 1709373600000)
      = [(''title'', ''Meeting''), (''start'', ''2024-03-02 09:00''),
         (''end'', ''2024-03-02 10:00''), (''allDay'', ''false'')]" by code_simp
  moreover have "createEvent example_host agenda_config agenda_vault (Some ''Meeting'')
        (Date 1709370000000) (Date 1709373600000)
      = Some (Created ''Meeting.md''
                (''---'' @ [CHR 0x0A] @ ''Agenda'' @ [CHR 0x0A] @ ''---'' @ [CHR 0x0A, CHR 0x0A]
                 @ ''Bring notes''))" by code_simp
  moreover have "has_frontmatter_block broken_template" by code_simp
  moreover have "buildNoteContent example_host (Some broken_template) computed
                   = Inl YamlParseError"
  proof (rule buildNoteContent_rejected_block)
    show "has_frontmatter_block broken_template" by code_simp
    show "frontmatter_object example_host broken_template = Throws" by code_simp
  qed
  ultimately show ?thesis by (simp only: simp_thms)
qed

end
